theory Spec2Isabelle
  imports Complex_Main
begin

section \<open>JavaScript numbers\<close>

text \<open>
  A JavaScript \<^verbatim>\<open>number\<close> is modelled as an exact real or one of the three
  non-finite values of IEEE 754. The operations follow the IEEE rules for the
  non-finite values (\<^verbatim>\<open>0/0\<close>, \<^verbatim>\<open>Infinity - Infinity\<close> and
  \<^verbatim>\<open>0 * Infinity\<close> are \<^verbatim>\<open>NaN\<close>; every comparison with
  \<^verbatim>\<open>NaN\<close> is false). In the animation loop and the generator they are exact on
  finite values: rounding (also the rounding to single precision when a
  \<^verbatim>\<open>Float32Array\<close> is written), overflow and the sign of zero are not modelled
  there. In the gesture classifier, whose result is a comparison of computed numbers, the
  rounding is a parameter (see \<open>rounded\<close> below). Every division of the sources has a
  divisor that is never a negative zero, so a zero divisor stands for \<^verbatim>\<open>+0\<close>.
\<close>

datatype jsnum = Fin real | PInf | NInf | NaN

fun inf_of_sign :: "real \<Rightarrow> jsnum" where
  "inf_of_sign s = (if 0 < s then PInf else if s < 0 then NInf else NaN)"

fun sign_of :: "jsnum \<Rightarrow> real" where
  "sign_of (Fin a) = sgn a"
| "sign_of PInf = 1"
| "sign_of NInf = - 1"
| "sign_of NaN = 0"

fun jneg :: "jsnum \<Rightarrow> jsnum" where
  "jneg (Fin a) = Fin (- a)"
| "jneg PInf = NInf"
| "jneg NInf = PInf"
| "jneg NaN = NaN"

fun jadd :: "jsnum \<Rightarrow> jsnum \<Rightarrow> jsnum" where
  "jadd (Fin a) (Fin b) = Fin (a + b)"
| "jadd NaN _ = NaN"
| "jadd _ NaN = NaN"
| "jadd PInf NInf = NaN"
| "jadd NInf PInf = NaN"
| "jadd PInf _ = PInf"
| "jadd _ PInf = PInf"
| "jadd NInf _ = NInf"
| "jadd _ NInf = NInf"

definition jsub :: "jsnum \<Rightarrow> jsnum \<Rightarrow> jsnum" where
  "jsub a b = jadd a (jneg b)"

fun jmul :: "jsnum \<Rightarrow> jsnum \<Rightarrow> jsnum" where
  "jmul (Fin a) (Fin b) = Fin (a * b)"
| "jmul NaN _ = NaN"
| "jmul _ NaN = NaN"
| "jmul a b = inf_of_sign (sign_of a * sign_of b)"

fun jdiv :: "jsnum \<Rightarrow> jsnum \<Rightarrow> jsnum" where
  "jdiv (Fin a) (Fin b) = (if b \<noteq> 0 then Fin (a / b) else inf_of_sign a)"
| "jdiv NaN _ = NaN"
| "jdiv _ NaN = NaN"
| "jdiv (Fin a) _ = Fin 0"
| "jdiv a (Fin b) = inf_of_sign (sign_of a * (if b < 0 then - 1 else 1))"
| "jdiv _ _ = NaN"

fun jsqrt :: "jsnum \<Rightarrow> jsnum" where
  "jsqrt (Fin a) = (if a < 0 then NaN else Fin (sqrt a))"
| "jsqrt PInf = PInf"
| "jsqrt NInf = NaN"
| "jsqrt NaN = NaN"

text \<open>\<^verbatim>\<open>a < b\<close> and \<^verbatim>\<open>a === b\<close> on numbers.\<close>

fun jlt :: "jsnum \<Rightarrow> jsnum \<Rightarrow> bool" where
  "jlt (Fin a) (Fin b) = (a < b)"
| "jlt NaN _ = False"
| "jlt _ NaN = False"
| "jlt _ NInf = False"
| "jlt PInf _ = False"
| "jlt _ _ = True"

fun jeq :: "jsnum \<Rightarrow> jsnum \<Rightarrow> bool" where
  "jeq (Fin a) (Fin b) = (a = b)"
| "jeq PInf PInf = True"
| "jeq NInf NInf = True"
| "jeq _ _ = False"

text \<open>
  Double-precision operations with their rounding: \<open>rnd x\<close> is the number that the
  machine gives for the exact result \<open>x\<close> of an operation on finite numbers (the nearest
  double, or an infinity when the result overflows). The rounding function is a parameter
  of the functions that use these operations, so that what is proved of them holds for
  the rounding of every machine.
\<close>

type_synonym rounding = "real \<Rightarrow> jsnum"

definition rounded :: "rounding \<Rightarrow> jsnum \<Rightarrow> jsnum" where
  "rounded rnd a = (case a of Fin x \<Rightarrow> rnd x | PInf \<Rightarrow> PInf | NInf \<Rightarrow> NInf | NaN \<Rightarrow> NaN)"

definition radd :: "rounding \<Rightarrow> jsnum \<Rightarrow> jsnum \<Rightarrow> jsnum" where
  "radd rnd a b = rounded rnd (jadd a b)"

definition rsub :: "rounding \<Rightarrow> jsnum \<Rightarrow> jsnum \<Rightarrow> jsnum" where
  "rsub rnd a b = rounded rnd (jsub a b)"

definition rmul :: "rounding \<Rightarrow> jsnum \<Rightarrow> jsnum \<Rightarrow> jsnum" where
  "rmul rnd a b = rounded rnd (jmul a b)"

section \<open>types.ts\<close>

datatype ShapeType = Sphere | Cube | Heart | Spiral

datatype HandGesture = NoneGesture | Open | Fist

record ParticleSettings =
  particleCount :: nat
  forceStrength :: jsnum
  interactionRadius :: jsnum
  damping :: jsnum
  returnSpeed :: jsnum

record HandData =
  hand_x :: jsnum
  hand_y :: jsnum
  gesture :: HandGesture
  detected :: bool

section \<open>utils/shapes.ts: the capacity of the buffers\<close>

definition MAX_PARTICLES :: nat where
  "MAX_PARTICLES = 40000"

section \<open>components/ParticleCanvas.tsx: the animation loop\<close>

text \<open>
  The three \<^verbatim>\<open>Float32Array\<close> buffers the loop works on. Reading a typed array
  beyond its length gives \<^verbatim>\<open>undefined\<close>, which every use in the loop turns
  into \<^verbatim>\<open>NaN\<close>; writing beyond its length is ignored, as \<open>xs[i := v]\<close> is.
\<close>

record sim =
  positions :: "jsnum list"
  velocities :: "jsnum list"
  targets :: "jsnum list"

definition f32_get :: "jsnum list \<Rightarrow> nat \<Rightarrow> jsnum" where
  "f32_get xs i = (if i < length xs then xs ! i else NaN)"

type_synonym vec3 = "jsnum \<times> jsnum \<times> jsnum"

text \<open>
  The camera is created with a field of view of 75 degrees and looks from \<open>z = 60\<close>;
  its aspect ratio is the window's and changes on resize, so it is a parameter.
\<close>

definition camera_fov :: real where
  "camera_fov = 75"

definition degToRad :: "real \<Rightarrow> real" where
  "degToRad degrees = degrees * (pi / 180)"

definition view_height :: jsnum where
  "view_height = Fin (2 * tan (degToRad camera_fov / 2) * 60)"

definition view_width :: "jsnum \<Rightarrow> jsnum" where
  "view_width aspect = jmul view_height aspect"

definition handX :: "HandData \<Rightarrow> jsnum \<Rightarrow> jsnum" where
  "handX currentHand aspect = jmul (jsub (hand_x currentHand) (Fin 0.5)) (view_width aspect)"

definition handY :: "HandData \<Rightarrow> jsnum" where
  "handY currentHand = jmul (jneg (jsub (hand_y currentHand) (Fin 0.5))) view_height"

definition handZ :: jsnum where
  "handZ = Fin 0"

text \<open>Step 2 of the loop body: the hand interaction, on the velocity after the return force.\<close>

definition hand_interaction ::
  "ParticleSettings \<Rightarrow> HandData \<Rightarrow> jsnum \<Rightarrow> jsnum \<Rightarrow> vec3 \<Rightarrow> vec3 \<Rightarrow> vec3" where
  "hand_interaction s currentHand hX hY p v =
     (case p of (px, py, pz) \<Rightarrow> case v of (vx, vy, vz) \<Rightarrow>
      if detected currentHand then
        let dx = jsub px hX;
            dy = jsub py hY;
            dz = jsub pz handZ;
            distSq = jadd (jadd (jmul dx dx) (jmul dy dy)) (jmul dz dz)
        in if jlt distSq (jmul (interactionRadius s) (interactionRadius s)) then
             let dist = jsqrt distSq;
                 nx = jdiv dx dist;
                 ny = jdiv dy dist;
                 nz = jdiv dz dist;
                 factor = jsub (Fin 1) (jdiv dist (interactionRadius s))
             in if gesture currentHand = Open then
                  let force = jmul (jmul (forceStrength s) factor) (Fin 2)
                  in (jadd vx (jmul nx force), jadd vy (jmul ny force), jadd vz (jmul nz force))
                else if gesture currentHand = Fist then
                  let force = jmul (jmul (jneg (forceStrength s)) factor) (Fin 3)
                  in (jadd vx (jmul nx force), jadd vy (jmul ny force), jadd vz (jmul nz force))
                else (vx, vy, vz)
           else (vx, vy, vz)
      else (vx, vy, vz))"

text \<open>The whole loop body on one particle: the new position and the new velocity.\<close>

definition particle_step ::
  "ParticleSettings \<Rightarrow> HandData \<Rightarrow> jsnum \<Rightarrow> jsnum \<Rightarrow> vec3 \<Rightarrow> vec3 \<Rightarrow> vec3 \<Rightarrow> vec3 \<times> vec3" where
  "particle_step s currentHand hX hY p t v =
     (case p of (px, py, pz) \<Rightarrow> case t of (tx, ty, tz) \<Rightarrow> case v of (vx, vy, vz) \<Rightarrow>
      let vx1 = jadd vx (jmul (jsub tx px) (returnSpeed s));
          vy1 = jadd vy (jmul (jsub ty py) (returnSpeed s));
          vz1 = jadd vz (jmul (jsub tz pz) (returnSpeed s))
      in case hand_interaction s currentHand hX hY (px, py, pz) (vx1, vy1, vz1) of
           (vx2, vy2, vz2) \<Rightarrow>
             let vx3 = jmul vx2 (damping s);
                 vy3 = jmul vy2 (damping s);
                 vz3 = jmul vz2 (damping s)
             in ((jadd px vx3, jadd py vy3, jadd pz vz3), (vx3, vy3, vz3)))"

definition get3 :: "jsnum list \<Rightarrow> nat \<Rightarrow> vec3" where
  "get3 xs i3 = (f32_get xs i3, f32_get xs (i3 + 1), f32_get xs (i3 + 2))"

definition set3 :: "jsnum list \<Rightarrow> nat \<Rightarrow> vec3 \<Rightarrow> jsnum list" where
  "set3 xs i3 w = (case w of (a, b, c) \<Rightarrow> xs[i3 := a, i3 + 1 := b, i3 + 2 := c])"

definition animate_body ::
  "ParticleSettings \<Rightarrow> HandData \<Rightarrow> jsnum \<Rightarrow> jsnum \<Rightarrow> nat \<Rightarrow> sim \<Rightarrow> sim" where
  "animate_body s currentHand hX hY i st =
     (let i3 = i * 3
      in case particle_step s currentHand hX hY
                (get3 (positions st) i3) (get3 (targets st) i3) (get3 (velocities st) i3) of
           (p', v') \<Rightarrow>
             st\<lparr>positions := set3 (positions st) i3 p',
                velocities := set3 (velocities st) i3 v'\<rparr>)"

function animate_loop ::
  "ParticleSettings \<Rightarrow> HandData \<Rightarrow> jsnum \<Rightarrow> jsnum \<Rightarrow> nat \<Rightarrow> sim \<Rightarrow> sim" where
  "animate_loop s currentHand hX hY i st =
     (if i < particleCount s
      then animate_loop s currentHand hX hY (Suc i) (animate_body s currentHand hX hY i st)
      else st)"
  by pat_completeness auto
termination
  by (relation "measure (\<lambda>(s, currentHand, hX, hY, i, st). particleCount s - i)") auto

declare animate_loop.simps [simp del]

text \<open>One frame: the physics of \<^verbatim>\<open>animate\<close> (the rotation and the rendering are not modelled).\<close>

definition animate :: "ParticleSettings \<Rightarrow> HandData \<Rightarrow> jsnum \<Rightarrow> sim \<Rightarrow> sim" where
  "animate currentSettings currentHand aspect st =
     animate_loop currentSettings currentHand
       (handX currentHand aspect) (handY currentHand) 0 st"

section \<open>App.tsx: the initial settings and hand data\<close>

definition initial_settings :: ParticleSettings where
  "initial_settings =
     \<lparr>particleCount = 20000, forceStrength = Fin 2.5, interactionRadius = Fin 25,
      damping = Fin 0.96, returnSpeed = Fin 0.04\<rparr>"

definition initial_hand :: HandData where
  "initial_hand = \<lparr>hand_x = Fin 0.5, hand_y = Fin 0.5, gesture = NoneGesture, detected = False\<rparr>"

section \<open>utils/shapes.ts: the generator of the target positions\<close>

text \<open>
  \<^verbatim>\<open>Math.random\<close> is a parameter: \<open>rand n\<close> is the number its \<open>n\<close>-th call
  returns during one call of \<^verbatim>\<open>generateShapePositions\<close>, and every function that
  draws from it returns the number of calls made so far. Its contract, \<open>0 \<le> rand n < 1\<close>,
  is the predicate \<open>rand_ok\<close>; under it the argument of \<^verbatim>\<open>Math.acos\<close> lies in
  \<open>[-1, 1)\<close> and that of \<^verbatim>\<open>Math.sqrt\<close> in \<open>[0, 1)\<close>, so the points are
  computed on the reals and stored as finite numbers.
\<close>

type_synonym rvec3 = "real \<times> real \<times> real"

definition rand_ok :: "(nat \<Rightarrow> real) \<Rightarrow> bool" where
  "rand_ok rand = (\<forall>n. 0 \<le> rand n \<and> rand n < 1)"

definition getPointOnSphereSurface :: "real \<Rightarrow> (nat \<Rightarrow> real) \<Rightarrow> nat \<Rightarrow> rvec3 \<times> nat" where
  "getPointOnSphereSurface r rand n =
     (let u = rand n;
          v = rand (n + 1);
          theta = 2 * pi * u;
          phi = arccos (2 * v - 1)
      in ((r * sin phi * cos theta, r * sin phi * sin theta, r * cos phi), n + 2))"

text \<open>The \<^verbatim>\<open>switch\<close> of the first loop, for the particle of index \<open>i\<close>.\<close>

fun shape_point :: "ShapeType \<Rightarrow> nat \<Rightarrow> nat \<Rightarrow> (nat \<Rightarrow> real) \<Rightarrow> nat \<Rightarrow> rvec3 \<times> nat" where
  "shape_point Sphere i count rand n = getPointOnSphereSurface 25 rand n"
| "shape_point Cube i count rand n =
     (let size = 35;
          x = (rand n - 0.5) * size;
          y = (rand (n + 1) - 0.5) * size;
          z = (rand (n + 2) - 0.5) * size
      in ((x, y, z), n + 3))"
| "shape_point Heart i count rand n =
     (let t = rand n * pi * 2;
          scale = 1.2;
          r = rand (n + 1);
          vol = sqrt r;
          x = scale * 16 * (sin t) ^ 3 * vol;
          y = scale * (13 * cos t - 5 * cos (2 * t) - 2 * cos (3 * t) - cos (4 * t)) * vol;
          z = (rand (n + 2) - 0.5) * 10 * vol;
          y = y + 5
      in ((x, y, z), n + 3))"
| "shape_point Spiral i count rand n =
     (let angle = real i * 0.1;
          radius = real i * 0.005;
          height = (real i / real count) * 60 - 30;
          arm = real (i mod 3);
          spin = real i * 0.002;
          r = 2 + (real i / real count) * 30;
          x = r * cos (spin + arm * (pi * 2 / 3));
          y = (rand n - 0.5) * 10;
          z = r * sin (spin + arm * (pi * 2 / 3));
          x = 20 * cos (real i * 0.05);
          z = 20 * sin (real i * 0.05);
          y = (real i / real count) * 60 - 30
      in ((x, y, z), n + 1))"

definition fin3 :: "rvec3 \<Rightarrow> vec3" where
  "fin3 w = (case w of (a, b, c) \<Rightarrow> (Fin a, Fin b, Fin c))"

function shape_loop ::
  "ShapeType \<Rightarrow> nat \<Rightarrow> (nat \<Rightarrow> real) \<Rightarrow> nat \<Rightarrow> nat \<Rightarrow> jsnum list \<Rightarrow> jsnum list" where
  "shape_loop type count rand i n ps =
     (if i < count
      then case shape_point type i count rand n of
             (w, n') \<Rightarrow> shape_loop type count rand (Suc i) n' (set3 ps (i * 3) (fin3 w))
      else ps)"
  by pat_completeness auto
termination
  by (relation "measure (\<lambda>(type, count, rand, i, n, ps). count - i)") auto

declare shape_loop.simps [simp del]

function sentinel_loop :: "nat \<Rightarrow> jsnum list \<Rightarrow> jsnum list" where
  "sentinel_loop i ps =
     (if i < MAX_PARTICLES
      then sentinel_loop (Suc i) (ps[i * 3 := Fin 9999, i * 3 + 1 := Fin 9999, i * 3 + 2 := Fin 9999])
      else ps)"
  by pat_completeness auto
termination
  by (relation "measure (\<lambda>(i, ps). MAX_PARTICLES - i)") auto

declare sentinel_loop.simps [simp del]

definition generateShapePositions :: "ShapeType \<Rightarrow> nat \<Rightarrow> (nat \<Rightarrow> real) \<Rightarrow> jsnum list" where
  "generateShapePositions type count rand =
     sentinel_loop count
       (shape_loop type count rand 0 0 (replicate (MAX_PARTICLES * 3) (Fin 0)))"

section \<open>services/handTracking.ts: the gesture classifier\<close>

datatype js_error = TypeError | RangeError

record landmark =
  lm_x :: jsnum
  lm_y :: jsnum




section \<open>components/ParticleCanvas.tsx: the shape and mount effects\<close>

text \<open>
  The component's refs: \<open>geometry\<close> is the position array of
  \<^verbatim>\<open>geometryRef.current\<close> (\<open>None\<close> while the ref is \<^verbatim>\<open>null\<close>).
  \<^verbatim>\<open>positions.set(src)\<close> throws a \<^verbatim>\<open>RangeError\<close> when the source is longer than
  the array.
\<close>

record canvas =
  geometry :: "jsnum list option"
  velocitiesRef :: "jsnum list"
  targetPositionsRef :: "jsnum list"

definition initial_canvas :: canvas where
  "initial_canvas =
     \<lparr>geometry = Option.None,
      velocitiesRef = replicate (MAX_PARTICLES * 3) (Fin 0),
      targetPositionsRef = replicate (MAX_PARTICLES * 3) (Fin 0)\<rparr>"

definition typed_set :: "jsnum list \<Rightarrow> jsnum list \<Rightarrow> js_error + jsnum list" where
  "typed_set dst src =
     (if length src \<le> length dst then Inr (src @ drop (length src) dst) else Inl RangeError)"

definition shape_effect :: "ShapeType \<Rightarrow> (nat \<Rightarrow> real) \<Rightarrow> canvas \<Rightarrow> js_error + canvas" where
  "shape_effect shape rand c =
     (let newTargets = generateShapePositions shape MAX_PARTICLES rand;
          c1 = c\<lparr>targetPositionsRef := newTargets\<rparr>
      in case geometry c1 of
           Option.None \<Rightarrow> Inr c1
         | Some ps \<Rightarrow>
             if jeq (f32_get ps 0) (Fin 0) \<and> jeq (f32_get ps 1) (Fin 0) \<and> jeq (f32_get ps 2) (Fin 0)
             then (case typed_set ps newTargets of
                     Inl e \<Rightarrow> Inl e
                   | Inr ps' \<Rightarrow> Inr (c1\<lparr>geometry := Some ps'\<rparr>))
             else Inr c1)"

definition mount_effect :: "ShapeType \<Rightarrow> (nat \<Rightarrow> real) \<Rightarrow> canvas \<Rightarrow> js_error + canvas" where
  "mount_effect shape rand c =
     (let ps = replicate (MAX_PARTICLES * 3) (Fin 0);
          initialTargets = generateShapePositions shape MAX_PARTICLES rand
      in case typed_set ps initialTargets of
           Inl e \<Rightarrow> Inl e
         | Inr ps' \<Rightarrow> Inr (c\<lparr>targetPositionsRef := initialTargets, geometry := Some ps'\<rparr>))"

text \<open>
  The first render runs the effects in the order of their declaration: the shape effect,
  while the geometry ref is still \<^verbatim>\<open>null\<close>, then the mount effect (with the mount
  ref attached: the scene, the camera and the renderer are not modelled). Each call of
  the generator has its own draws.
\<close>

definition first_render :: "ShapeType \<Rightarrow> (nat \<Rightarrow> real) \<Rightarrow> (nat \<Rightarrow> real) \<Rightarrow> js_error + canvas" where
  "first_render shape rand1 rand2 =
     (case shape_effect shape rand1 initial_canvas of
        Inl e \<Rightarrow> Inl e
      | Inr c \<Rightarrow> mount_effect shape rand2 c)"

section \<open>Notions of the specification\<close>

text \<open>A run of the animation: one frame per entry, each with the settings, the hand data
  and the camera's aspect ratio that the frame reads.\<close>

type_synonym frame = "ParticleSettings \<times> HandData \<times> jsnum"

fun run :: "frame list \<Rightarrow> sim \<Rightarrow> sim" where
  "run [] st = st"
| "run ((s, h, a) # fs) st = run fs (animate s h a st)"

text \<open>The component \<open>m\<close> of a vector, and the loop body's result for the particle \<open>k\<close>
  of a state.\<close>

fun nth3 :: "vec3 \<Rightarrow> nat \<Rightarrow> jsnum" where
  "nth3 (a, b, c) m = (if m = 0 then a else if m = 1 then b else c)"

definition slot_step ::
  "ParticleSettings \<Rightarrow> HandData \<Rightarrow> jsnum \<Rightarrow> jsnum \<Rightarrow> sim \<Rightarrow> nat \<Rightarrow> vec3 \<times> vec3" where
  "slot_step s h hX hY st k =
     particle_step s h hX hY (get3 (positions st) (k * 3)) (get3 (targets st) (k * 3))
       (get3 (velocities st) (k * 3))"

text \<open>
  The hand force as the specification words it, on the reals: nothing without a detected
  hand or at a distance of the interaction radius or more; within the radius, of magnitude
  \<open>forceStrength * (1 - d / interactionRadius) * 2.0\<close> away from the hand point for an open
  hand and \<open>forceStrength * (1 - d / interactionRadius) * 3.0\<close> toward it for a fist.
\<close>

definition dist3 :: "rvec3 \<Rightarrow> rvec3 \<Rightarrow> real" where
  "dist3 a b = (case a of (ax, ay, az) \<Rightarrow> case b of (bx, by, bz) \<Rightarrow>
     sqrt ((ax - bx)\<^sup>2 + (ay - by)\<^sup>2 + (az - bz)\<^sup>2))"

definition scale3 :: "real \<Rightarrow> rvec3 \<Rightarrow> rvec3" where
  "scale3 m a = (case a of (ax, ay, az) \<Rightarrow> (m * ax, m * ay, m * az))"

definition away_from :: "rvec3 \<Rightarrow> rvec3 \<Rightarrow> rvec3" where
  "away_from hp p = (case hp of (hx, hy, hz) \<Rightarrow> case p of (px, py, pz) \<Rightarrow>
     ((px - hx) / dist3 p hp, (py - hy) / dist3 p hp, (pz - hz) / dist3 p hp))"

definition F_hand :: "real \<Rightarrow> real \<Rightarrow> bool \<Rightarrow> HandGesture \<Rightarrow> rvec3 \<Rightarrow> rvec3 \<Rightarrow> rvec3" where
  "F_hand fs R det g hp p =
     (if det \<and> dist3 p hp < R then
        (if g = Open then scale3 (fs * (1 - dist3 p hp / R) * 2.0) (away_from hp p)
         else if g = Fist then
           scale3 (fs * (1 - dist3 p hp / R) * 3.0) (scale3 (- 1) (away_from hp p))
         else (0, 0, 0))
      else (0, 0, 0))"

text \<open>
  The number of draws of \<^verbatim>\<open>Math.random\<close> that one particle of a shape takes, the
  sentinel of the unused particles, and the single helix as the specification words it.
\<close>

fun draws :: "ShapeType \<Rightarrow> nat" where
  "draws Sphere = 2"
| "draws Cube = 3"
| "draws Heart = 3"
| "draws Spiral = 1"

definition sentinel :: vec3 where
  "sentinel = (Fin 9999, Fin 9999, Fin 9999)"

definition helix :: "nat \<Rightarrow> nat \<Rightarrow> rvec3" where
  "helix i requestedCount =
     (20 * cos (real i * 0.05), (real i / real requestedCount) * 60 - 30, 20 * sin (real i * 0.05))"

text \<open>
  The classifier as the specification words it: the squared distance of two landmarks (as
  the machine computes it), a fingertip folded when its squared distance to the wrist
  (landmark 0) is less than 1.5 times the reference, the squared distance of the landmarks
  0 and 9, and Fist for at least 3 folded fingertips of the 4.
\<close>

definition sqdist2 :: "rounding \<Rightarrow> landmark \<Rightarrow> landmark \<Rightarrow> jsnum" where
  "sqdist2 rnd a b =
     radd rnd (rmul rnd (rsub rnd (lm_x a) (lm_x b)) (rsub rnd (lm_x a) (lm_x b)))
              (rmul rnd (rsub rnd (lm_y a) (lm_y b)) (rsub rnd (lm_y a) (lm_y b)))"

definition folded :: "rounding \<Rightarrow> landmark list \<Rightarrow> nat \<Rightarrow> bool" where
  "folded rnd lms tip =
     jlt (sqdist2 rnd (lms ! tip) (lms ! 0)) (rmul rnd (Fin 1.5) (sqdist2 rnd (lms ! 0) (lms ! 9)))"


text \<open>Landmarks with real coordinates, and the squared distance on the reals.\<close>

type_synonym point2 = "real \<times> real"

definition to_landmark :: "point2 \<Rightarrow> landmark" where
  "to_landmark q = \<lparr>lm_x = Fin (fst q), lm_y = Fin (snd q)\<rparr>"

definition real_sqdist2 :: "point2 \<Rightarrow> point2 \<Rightarrow> real" where
  "real_sqdist2 a b = (fst a - fst b)\<^sup>2 + (snd a - snd b)\<^sup>2"

text \<open>
  The aggregate squared distance of the active particles to their targets, summed with
  the arithmetic of the animation loop; and, for the frames with no hand, one coordinate of
  one particle on the reals: its position and velocity after a frame.
\<close>

definition sq_dist_sum :: "nat \<Rightarrow> sim \<Rightarrow> jsnum" where
  "sq_dist_sum c st =
     foldr (\<lambda>j acc. jadd (jmul (jsub (f32_get (positions st) j) (f32_get (targets st) j))
                              (jsub (f32_get (positions st) j) (f32_get (targets st) j))) acc)
       [0..<c * 3] (Fin 0)"

definition coord_step :: "real \<Rightarrow> real \<Rightarrow> real \<Rightarrow> real \<times> real \<Rightarrow> real \<times> real" where
  "coord_step d k t pv = (case pv of (p, v) \<Rightarrow> (p + (v + (t - p) * k) * d, (v + (t - p) * k) * d))"

section \<open>The animation loop, particle by particle\<close>

lemma jsub_Fin [simp]: "jsub (Fin a) (Fin b) = Fin (a - b)"
  by (simp add: jsub_def)

lemma length_set3 [simp]: "length (set3 xs i3 w) = length xs"
  by (cases w) (simp add: set3_def)

lemma nth_set3:
  "j < length xs \<Longrightarrow>
   set3 xs i3 w ! j = (if i3 \<le> j \<and> j < i3 + 3 then nth3 w (j - i3) else xs ! j)"
  by (cases w) (auto simp: set3_def nth_list_update)

lemma f32_get_set3:
  "f32_get (set3 xs i3 w) j =
     (if i3 \<le> j \<and> j < i3 + 3 \<and> j < length xs then nth3 w (j - i3) else f32_get xs j)"
  by (auto simp: f32_get_def nth_set3)

lemma get3_set3_other:
  "k \<noteq> i \<Longrightarrow> get3 (set3 xs (i * 3) w) (k * 3) = get3 xs (k * 3)"
  by (auto simp: get3_def f32_get_set3)

lemma targets_animate_body [simp]: "targets (animate_body s h hX hY i st) = targets st"
  by (simp add: animate_body_def Let_def split: prod.splits)

lemma length_positions_animate_body [simp]:
  "length (positions (animate_body s h hX hY i st)) = length (positions st)"
  by (simp add: animate_body_def Let_def split: prod.splits)

lemma length_velocities_animate_body [simp]:
  "length (velocities (animate_body s h hX hY i st)) = length (velocities st)"
  by (simp add: animate_body_def Let_def split: prod.splits)

lemma slot_step_animate_body:
  "k \<noteq> i \<Longrightarrow> slot_step s h hX hY (animate_body s h hX hY i st) k = slot_step s h hX hY st k"
  by (simp add: slot_step_def animate_body_def Let_def get3_set3_other split: prod.splits)

lemma positions_animate_body_nth:
  "j < length (positions st) \<Longrightarrow>
   positions (animate_body s h hX hY i st) ! j =
     (if i * 3 \<le> j \<and> j < i * 3 + 3 then nth3 (fst (slot_step s h hX hY st i)) (j - i * 3)
      else positions st ! j)"
  by (simp add: animate_body_def slot_step_def Let_def nth_set3 split: prod.splits)

lemma velocities_animate_body_nth:
  "j < length (velocities st) \<Longrightarrow>
   velocities (animate_body s h hX hY i st) ! j =
     (if i * 3 \<le> j \<and> j < i * 3 + 3 then nth3 (snd (slot_step s h hX hY st i)) (j - i * 3)
      else velocities st ! j)"
  by (simp add: animate_body_def slot_step_def Let_def nth_set3 split: prod.splits)

lemma targets_animate_loop [simp]: "targets (animate_loop s h hX hY i st) = targets st"
  by (induction s h hX hY i st rule: animate_loop.induct)
     (subst animate_loop.simps, simp)

lemma length_positions_animate_loop [simp]:
  "length (positions (animate_loop s h hX hY i st)) = length (positions st)"
  by (induction s h hX hY i st rule: animate_loop.induct)
     (subst animate_loop.simps, simp)

lemma length_velocities_animate_loop [simp]:
  "length (velocities (animate_loop s h hX hY i st)) = length (velocities st)"
  by (induction s h hX hY i st rule: animate_loop.induct)
     (subst animate_loop.simps, simp)

lemma positions_animate_loop_nth:
  "j < length (positions st) \<Longrightarrow>
   positions (animate_loop s h hX hY i st) ! j =
     (if i * 3 \<le> j \<and> j < particleCount s * 3
      then nth3 (fst (slot_step s h hX hY st (j div 3))) (j mod 3)
      else positions st ! j)"
proof (induction s h hX hY i st rule: animate_loop.induct)
  case (1 s h hX hY i st)
  show ?case
  proof (cases "i < particleCount s")
    case False
    then show ?thesis by (subst animate_loop.simps) auto
  next
    case True
    let ?st1 = "animate_body s h hX hY i st"
    have len: "j < length (positions ?st1)" using "1.prems" by simp
    have unf: "animate_loop s h hX hY i st = animate_loop s h hX hY (Suc i) ?st1"
      using True by (subst animate_loop.simps) simp
    note IH = "1.IH"[OF True len]
    show ?thesis
    proof (cases "Suc i * 3 \<le> j \<and> j < particleCount s * 3")
      case A: True
      then have "j div 3 \<noteq> i" by auto
      then show ?thesis using A IH unf
        by (simp add: slot_step_animate_body)
    next
      case B: False
      show ?thesis
      proof (cases "i * 3 \<le> j \<and> j < i * 3 + 3")
        case C: True
        then have d: "j div 3 = i" by auto
        have m: "j mod 3 = j - i * 3"
          using C d by (metis add.commute diff_add_inverse div_mult_mod_eq mult.commute)
        show ?thesis using B C IH unf True "1.prems" d m
          by (simp add: positions_animate_body_nth)
      next
        case D: False
        then show ?thesis using B IH unf True "1.prems"
          by (auto simp add: positions_animate_body_nth)
      qed
    qed
  qed
qed


lemma velocities_animate_loop_nth:
  "j < length (velocities st) \<Longrightarrow>
   velocities (animate_loop s h hX hY i st) ! j =
     (if i * 3 \<le> j \<and> j < particleCount s * 3
      then nth3 (snd (slot_step s h hX hY st (j div 3))) (j mod 3)
      else velocities st ! j)"
proof (induction s h hX hY i st rule: animate_loop.induct)
  case (1 s h hX hY i st)
  show ?case
  proof (cases "i < particleCount s")
    case False
    then show ?thesis by (subst animate_loop.simps) auto
  next
    case True
    let ?st1 = "animate_body s h hX hY i st"
    have len: "j < length (velocities ?st1)" using "1.prems" by simp
    have unf: "animate_loop s h hX hY i st = animate_loop s h hX hY (Suc i) ?st1"
      using True by (subst animate_loop.simps) simp
    note IH = "1.IH"[OF True len]
    show ?thesis
    proof (cases "Suc i * 3 \<le> j \<and> j < particleCount s * 3")
      case A: True
      then have "j div 3 \<noteq> i" by auto
      then show ?thesis using A IH unf
        by (simp add: slot_step_animate_body)
    next
      case B: False
      show ?thesis
      proof (cases "i * 3 \<le> j \<and> j < i * 3 + 3")
        case C: True
        then have d: "j div 3 = i" by auto
        have m: "j mod 3 = j - i * 3"
          using C d by (metis add.commute diff_add_inverse div_mult_mod_eq mult.commute)
        show ?thesis using B C IH unf True "1.prems" d m
          by (simp add: velocities_animate_body_nth)
      next
        case D: False
        then show ?thesis using B IH unf True "1.prems"
          by (auto simp add: velocities_animate_body_nth)
      qed
    qed
  qed
qed

lemma get3_nth3:
  assumes "k * 3 + 2 < length xs"
    and "\<And>m. m < 3 \<Longrightarrow> xs ! (k * 3 + m) = nth3 w m"
  shows "get3 xs (k * 3) = w"
proof -
  have "xs ! (k * 3) = nth3 w 0" "xs ! (k * 3 + 1) = nth3 w 1" "xs ! (k * 3 + 2) = nth3 w 2"
    using assms(2)[of 0] assms(2)[of 1] assms(2)[of 2] by simp_all
  then show ?thesis using assms(1) by (cases w) (simp add: get3_def f32_get_def)
qed

lemma animate_positions_slot:
  assumes "k < particleCount s" and "k * 3 + 2 < length (positions st)"
  shows "get3 (positions (animate s h a st)) (k * 3)
         = fst (slot_step s h (handX h a) (handY h) st k)"
proof (rule get3_nth3)
  show "k * 3 + 2 < length (positions (animate s h a st))"
    using assms by (simp add: animate_def)
  fix m :: nat assume "m < 3"
  then show "positions (animate s h a st) ! (k * 3 + m)
             = nth3 (fst (slot_step s h (handX h a) (handY h) st k)) m"
    using assms by (simp add: animate_def positions_animate_loop_nth)
qed

lemma animate_velocities_slot:
  assumes "k < particleCount s" and "k * 3 + 2 < length (velocities st)"
  shows "get3 (velocities (animate s h a st)) (k * 3)
         = snd (slot_step s h (handX h a) (handY h) st k)"
proof (rule get3_nth3)
  show "k * 3 + 2 < length (velocities (animate s h a st))"
    using assms by (simp add: animate_def)
  fix m :: nat assume "m < 3"
  then show "velocities (animate s h a st) ! (k * 3 + m)
             = nth3 (snd (slot_step s h (handX h a) (handY h) st k)) m"
    using assms by (simp add: animate_def velocities_animate_loop_nth)
qed

lemma animate_positions_frame:
  "particleCount s \<le> c \<Longrightarrow> drop (c * 3) (positions (animate s h a st)) = drop (c * 3) (positions st)"
  by (rule nth_equalityI) (simp_all add: animate_def positions_animate_loop_nth)

lemma animate_velocities_frame:
  "particleCount s \<le> c \<Longrightarrow> drop (c * 3) (velocities (animate s h a st)) = drop (c * 3) (velocities st)"
  by (rule nth_equalityI) (simp_all add: animate_def velocities_animate_loop_nth)

lemma targets_animate [simp]: "targets (animate s h a st) = targets st"
  by (simp add: animate_def)

lemma get3_drop:
  "drop (c * 3) xs = drop (c * 3) ys \<Longrightarrow> c \<le> k \<Longrightarrow> get3 xs (k * 3) = get3 ys (k * 3)"
proof -
  assume d: "drop (c * 3) xs = drop (c * 3) ys" and k: "c \<le> k"
  have len: "length xs = length ys \<or> (length xs \<le> c * 3 \<and> length ys \<le> c * 3)"
    using arg_cong[OF d, of length] by auto
  have "f32_get xs j = f32_get ys j" if "c * 3 \<le> j" for j
  proof -
    have "drop (c * 3) xs ! (j - c * 3) = drop (c * 3) ys ! (j - c * 3)" using d by simp
    then show ?thesis using that len by (auto simp: f32_get_def)
  qed
  then show ?thesis using k by (simp add: get3_def)
qed

section \<open>Frames with no force from the hand, and idle particles\<close>

lemma hand_interaction_none:
  "hand_interaction s \<lparr>hand_x = x0, hand_y = y0, gesture = NoneGesture, detected = True\<rparr> hX hY p v
   = hand_interaction s \<lparr>hand_x = x1, hand_y = y1, gesture = g, detected = False\<rparr> hX hY p v"
  by (cases p; cases v) (simp add: hand_interaction_def Let_def)

lemma particle_step_none:
  "particle_step s \<lparr>hand_x = x0, hand_y = y0, gesture = NoneGesture, detected = True\<rparr> hX hY p t v
   = particle_step s \<lparr>hand_x = x1, hand_y = y1, gesture = g, detected = False\<rparr> hX hY p t v"
  by (cases p; cases t; cases v) (simp add: particle_step_def hand_interaction_none[of s x0 y0 _ _ _ _ x1 y1 g])

lemma animate_loop_cong:
  assumes "\<And>i st. animate_body s h hX hY i st = animate_body s h' hX' hY' i st"
  shows "animate_loop s h hX hY i st = animate_loop s h' hX' hY' i st"
proof (induction "particleCount s - i" arbitrary: i st)
  case 0
  then show ?case by (simp add: animate_loop.simps[of s _ _ _ i])
next
  case (Suc m)
  then have lt: "i < particleCount s" and m: "m = particleCount s - Suc i" by auto
  show ?case
    using lt Suc.hyps(1)[OF m] by (simp add: animate_loop.simps[of s _ _ _ i] assms)
qed

text \<open>
  C10: a detected hand whose gesture is None adds no force. A frame with such a hand gives
  the same buffers as the frame with no hand detected, whatever the particles, the
  settings and the hand point are; and for a particle that sits exactly on the hand point,
  with finite target, velocity, damping and return speed, the new velocity is the finite
  value that the return force and the damping alone give.
\<close>

theorem gesture_none_is_no_hand:
  "animate s \<lparr>hand_x = x0, hand_y = y0, gesture = NoneGesture, detected = True\<rparr> a st
   = animate s \<lparr>hand_x = x0, hand_y = y0, gesture = g, detected = False\<rparr> a st
   \<and> snd (particle_step
        \<lparr>particleCount = n, forceStrength = fs, interactionRadius = R,
         damping = Fin d, returnSpeed = Fin k\<rparr>
        \<lparr>hand_x = x0, hand_y = y0, gesture = NoneGesture, detected = True\<rparr>
        (Fin hx) (Fin hy) (Fin hx, Fin hy, Fin 0) (Fin tx, Fin ty, Fin tz) (Fin vx, Fin vy, Fin vz))
     = (Fin ((vx + (tx - hx) * k) * d), Fin ((vy + (ty - hy) * k) * d), Fin ((vz + tz * k) * d))"
proof
  show "animate s \<lparr>hand_x = x0, hand_y = y0, gesture = NoneGesture, detected = True\<rparr> a st
        = animate s \<lparr>hand_x = x0, hand_y = y0, gesture = g, detected = False\<rparr> a st"
    unfolding animate_def
    by (rule animate_loop_cong)
       (simp add: animate_body_def handX_def handY_def particle_step_none[of s x0 y0 _ _ _ _ _ x0 y0 g])
next
  show "snd (particle_step
        \<lparr>particleCount = n, forceStrength = fs, interactionRadius = R,
         damping = Fin d, returnSpeed = Fin k\<rparr>
        \<lparr>hand_x = x0, hand_y = y0, gesture = NoneGesture, detected = True\<rparr>
        (Fin hx) (Fin hy) (Fin hx, Fin hy, Fin 0) (Fin tx, Fin ty, Fin tz) (Fin vx, Fin vy, Fin vz))
     = (Fin ((vx + (tx - hx) * k) * d), Fin ((vy + (ty - hy) * k) * d), Fin ((vz + tz * k) * d))"
    by (simp add: particle_step_def hand_interaction_def Let_def)
qed

lemma length_positions_animate [simp]:
  "length (positions (animate s h a st)) = length (positions st)"
  by (simp add: animate_def)

lemma length_velocities_animate [simp]:
  "length (velocities (animate s h a st)) = length (velocities st)"
  by (simp add: animate_def)

lemma run_frame:
  "\<forall>f \<in> set fs. particleCount (fst f) \<le> c \<Longrightarrow>
   drop (c * 3) (positions (run fs st)) = drop (c * 3) (positions st) \<and>
   drop (c * 3) (velocities (run fs st)) = drop (c * 3) (velocities st) \<and>
   targets (run fs st) = targets st \<and>
   length (positions (run fs st)) = length (positions st) \<and>
   length (velocities (run fs st)) = length (velocities st)"
proof (induction fs arbitrary: st)
  case Nil
  then show ?case by simp
next
  case (Cons f fs)
  obtain s h a where f: "f = (s, h, a)" by (cases f) auto
  have c: "particleCount s \<le> c" using Cons.prems f by simp
  have rest: "\<forall>f \<in> set fs. particleCount (fst f) \<le> c" using Cons.prems by simp
  show ?case
    using Cons.IH[OF rest, of "animate s h a st"] c
    by (simp add: f animate_positions_frame animate_velocities_frame)
qed

text \<open>
  C8: let every frame of a run have an active count of at most \<open>c\<close>. Then the entries
  of the position and velocity buffers from index \<open>3 * c\<close> on are the same after the run as
  before it; and a next frame with a larger active count updates each particle
  \<open>k \<ge> c\<close> below its count from the values the particle had before the run: nothing
  was reset.
\<close>

theorem idle_slots_frozen:
  assumes "\<forall>f \<in> set fs. particleCount (fst f) \<le> c"
  shows "drop (c * 3) (positions (run fs st)) = drop (c * 3) (positions st)
       \<and> drop (c * 3) (velocities (run fs st)) = drop (c * 3) (velocities st)
       \<and> (\<forall>k s h a. c \<le> k \<and> k < particleCount s
             \<and> k * 3 + 2 < length (positions st) \<and> k * 3 + 2 < length (velocities st) \<longrightarrow>
            (get3 (positions (animate s h a (run fs st))) (k * 3),
             get3 (velocities (animate s h a (run fs st))) (k * 3))
            = particle_step s h (handX h a) (handY h)
                (get3 (positions st) (k * 3)) (get3 (targets st) (k * 3))
                (get3 (velocities st) (k * 3)))"
proof -
  note fr = run_frame[OF assms, of st]
  have "(get3 (positions (animate s h a (run fs st))) (k * 3),
         get3 (velocities (animate s h a (run fs st))) (k * 3))
        = particle_step s h (handX h a) (handY h)
            (get3 (positions st) (k * 3)) (get3 (targets st) (k * 3))
            (get3 (velocities st) (k * 3))"
    if k: "c \<le> k" "k < particleCount s" "k * 3 + 2 < length (positions st)"
      "k * 3 + 2 < length (velocities st)" for k s h a
  proof -
    have p: "get3 (positions (run fs st)) (k * 3) = get3 (positions st) (k * 3)"
      using fr k(1) get3_drop[of c "positions (run fs st)" "positions st" k] by simp
    have v: "get3 (velocities (run fs st)) (k * 3) = get3 (velocities st) (k * 3)"
      using fr k(1) get3_drop[of c "velocities (run fs st)" "velocities st" k] by simp
    have "slot_step s h (handX h a) (handY h) (run fs st) k
          = particle_step s h (handX h a) (handY h)
            (get3 (positions st) (k * 3)) (get3 (targets st) (k * 3))
            (get3 (velocities st) (k * 3))"
      using fr by (simp add: slot_step_def p v)
    then show ?thesis
      using animate_positions_slot[of k s "run fs st" h a]
        animate_velocities_slot[of k s "run fs st" h a] k fr
      by (simp add: prod_eq_iff)
  qed
  then show ?thesis using fr by simp
qed


theorem idle_slots_frozen_witness:
  "particleCount initial_settings \<le> 20000
   \<and> drop (20000 * 3)
        (positions (run [(initial_settings, initial_hand, Fin 2)]
           \<lparr>positions = replicate (MAX_PARTICLES * 3) (Fin 1),
            velocities = replicate (MAX_PARTICLES * 3) (Fin 0),
            targets = replicate (MAX_PARTICLES * 3) (Fin 3)\<rparr>))
      = replicate 60000 (Fin 1)
   \<and> get3 (positions (animate (initial_settings\<lparr>particleCount := 40000\<rparr>) initial_hand (Fin 2)
          (run [(initial_settings, initial_hand, Fin 2)]
           \<lparr>positions = replicate (MAX_PARTICLES * 3) (Fin 1),
            velocities = replicate (MAX_PARTICLES * 3) (Fin 0),
            targets = replicate (MAX_PARTICLES * 3) (Fin 3)\<rparr>))) (20000 * 3)
      = (Fin (1 + 2 * 0.04 * 0.96), Fin (1 + 2 * 0.04 * 0.96), Fin (1 + 2 * 0.04 * 0.96))"
proof -
  let ?st = "\<lparr>positions = replicate (MAX_PARTICLES * 3) (Fin 1),
            velocities = replicate (MAX_PARTICLES * 3) (Fin 0),
            targets = replicate (MAX_PARTICLES * 3) (Fin 3)\<rparr>"
  let ?fs = "[(initial_settings, initial_hand, Fin 2)]"
  let ?s = "initial_settings\<lparr>particleCount := 40000\<rparr>"
  have hyp: "\<forall>f \<in> set ?fs. particleCount (fst f) \<le> 20000"
    by (simp add: initial_settings_def)
  note T = idle_slots_frozen[OF hyp, of ?st]
  have 1: "drop (20000 * 3) (positions (run ?fs ?st)) = replicate 60000 (Fin 1)"
    using T by (simp add: MAX_PARTICLES_def)
  have "(get3 (positions (animate ?s initial_hand (Fin 2) (run ?fs ?st))) (20000 * 3),
         get3 (velocities (animate ?s initial_hand (Fin 2) (run ?fs ?st))) (20000 * 3))
        = particle_step ?s initial_hand (handX initial_hand (Fin 2)) (handY initial_hand)
            (get3 (positions ?st) (20000 * 3)) (get3 (targets ?st) (20000 * 3))
            (get3 (velocities ?st) (20000 * 3))"
    using T[THEN conjunct2, THEN conjunct2, rule_format, of 20000 ?s initial_hand "Fin 2"]
    by (simp add: MAX_PARTICLES_def initial_settings_def)
  then have 2: "get3 (positions (animate ?s initial_hand (Fin 2) (run ?fs ?st))) (20000 * 3)
      = (Fin (1 + 2 * 0.04 * 0.96), Fin (1 + 2 * 0.04 * 0.96), Fin (1 + 2 * 0.04 * 0.96))"
    by (simp add: prod_eq_iff particle_step_def hand_interaction_def initial_hand_def
        initial_settings_def get3_def f32_get_def MAX_PARTICLES_def Let_def)
  show ?thesis using 1 2 by (simp add: initial_settings_def)
qed

section \<open>The velocity and position of an active particle after a frame\<close>

lemma sqrt_less_iff_sq:
  fixes R :: real
  assumes "0 \<le> R" "0 \<le> q"
  shows "(q < R * R) = (sqrt q < R)"
proof -
  have "sqrt (R * R) = R" using assms by simp
  then show ?thesis by (metis real_sqrt_less_iff)
qed

lemma hand_interaction_Fin:
  assumes fs: "forceStrength s = Fin fs" and iR: "interactionRadius s = Fin R"
    and R: "0 \<le> R"
    and ne: "detected h \<Longrightarrow> gesture h \<noteq> NoneGesture \<Longrightarrow> (px, py, pz) \<noteq> (hx, hy, 0)"
  shows "hand_interaction s h (Fin hx) (Fin hy) (Fin px, Fin py, Fin pz) (Fin vx, Fin vy, Fin vz)
         = (case F_hand fs R (detected h) (gesture h) (hx, hy, 0) (px, py, pz) of
              (fx, fy, fz) \<Rightarrow> (Fin (vx + fx), Fin (vy + fy), Fin (vz + fz)))"
proof -
  define q where "q = (px - hx) * (px - hx) + (py - hy) * (py - hy) + pz * pz"
  have q0: "0 \<le> q" by (simp add: q_def)
  have dq: "dist3 (px, py, pz) (hx, hy, 0) = sqrt q"
    by (simp add: dist3_def power2_eq_square q_def)
  have lt: "(q < R * R) = (sqrt q < R)"
    using sqrt_less_iff_sq[OF R q0] .
  have qe: "(px - hx) * (px - hx) + (py - hy) * (py - hy) + pz * pz = q"
    by (simp add: q_def)
  show ?thesis
  proof (cases "detected h \<and> sqrt q < R")
    case False
    then show ?thesis
      by (auto simp: hand_interaction_def F_hand_def Let_def handZ_def qe lt dq fs iR)
  next
    case True
    then have R0: "R \<noteq> 0" using real_sqrt_ge_zero[OF q0] by auto
    show ?thesis
    proof (cases "gesture h")
      case NoneGesture
      then show ?thesis using True
        by (simp add: hand_interaction_def F_hand_def Let_def handZ_def qe lt dq fs iR)
    next
      case Open
      then have "(px, py, pz) \<noteq> (hx, hy, 0)" using ne True by simp
      then have "q \<noteq> 0" by (auto simp: q_def add_nonneg_eq_0_iff)
      then have sq: "sqrt q \<noteq> 0" by simp
      show ?thesis using True Open sq R0 q0
        by (simp add: hand_interaction_def F_hand_def Let_def handZ_def qe lt dq fs iR
                      away_from_def scale3_def)
    next
      case Fist
      then have "(px, py, pz) \<noteq> (hx, hy, 0)" using ne True by simp
      then have "q \<noteq> 0" by (auto simp: q_def add_nonneg_eq_0_iff)
      then have sq: "sqrt q \<noteq> 0" by simp
      show ?thesis using True Fist sq R0 q0
        by (simp add: hand_interaction_def F_hand_def Let_def handZ_def qe lt dq fs iR
                      away_from_def scale3_def)
    qed
  qed
qed

lemma particle_step_Fin:
  assumes fs: "forceStrength s = Fin fs" and iR: "interactionRadius s = Fin R"
    and d: "damping s = Fin d" and k: "returnSpeed s = Fin k"
    and R: "0 \<le> R"
    and ne: "detected h \<Longrightarrow> gesture h \<noteq> NoneGesture \<Longrightarrow> (px, py, pz) \<noteq> (hx, hy, 0)"
    and F: "F_hand fs R (detected h) (gesture h) (hx, hy, 0) (px, py, pz) = (Fx, Fy, Fz)"
  shows "particle_step s h (Fin hx) (Fin hy)
           (Fin px, Fin py, Fin pz) (Fin tx, Fin ty, Fin tz) (Fin vx, Fin vy, Fin vz)
         = ((Fin (px + d * (vx + (tx - px) * k + Fx)),
             Fin (py + d * (vy + (ty - py) * k + Fy)),
             Fin (pz + d * (vz + (tz - pz) * k + Fz))),
            (Fin (d * (vx + (tx - px) * k + Fx)),
             Fin (d * (vy + (ty - py) * k + Fy)),
             Fin (d * (vz + (tz - pz) * k + Fz))))"
  by (simp add: particle_step_def d k F mult.commute
        hand_interaction_Fin[OF fs iR R ne])

lemma get3_Fin_in_range:
  "get3 xs i3 = (Fin a, Fin b, Fin c) \<Longrightarrow> i3 + 2 < length xs"
  by (auto simp: get3_def f32_get_def split: if_splits)

text \<open>
  Away from the hand point: for an active particle with finite position, target and
  velocity, finite settings with a radius that is not negative, and a finite hand point
  that the particle does not sit on when the gesture is Open or Fist, one frame gives the
  velocity \<open>v' = damping * (v + (target - position) * returnSpeed + F_hand)\<close> and the
  position \<open>position + v'\<close>, component by component, with the hand force of the
  specification.
\<close>

lemma animate_velocity_position:
  assumes act: "i < particleCount s"
    and fs: "forceStrength s = Fin fs" and iR: "interactionRadius s = Fin R"
    and d: "damping s = Fin d" and k: "returnSpeed s = Fin k"
    and R: "0 \<le> R"
    and hX: "handX h a = Fin hx" and hY: "handY h = Fin hy"
    and p: "get3 (positions st) (i * 3) = (Fin px, Fin py, Fin pz)"
    and t: "get3 (targets st) (i * 3) = (Fin tx, Fin ty, Fin tz)"
    and v: "get3 (velocities st) (i * 3) = (Fin vx, Fin vy, Fin vz)"
    and ne: "detected h \<Longrightarrow> gesture h \<noteq> NoneGesture \<Longrightarrow> (px, py, pz) \<noteq> (hx, hy, 0)"
    and F: "F_hand fs R (detected h) (gesture h) (hx, hy, 0) (px, py, pz) = (Fx, Fy, Fz)"
  shows "get3 (velocities (animate s h a st)) (i * 3)
         = (Fin (d * (vx + (tx - px) * k + Fx)),
            Fin (d * (vy + (ty - py) * k + Fy)),
            Fin (d * (vz + (tz - pz) * k + Fz)))
       \<and> get3 (positions (animate s h a st)) (i * 3)
         = (Fin (px + d * (vx + (tx - px) * k + Fx)),
            Fin (py + d * (vy + (ty - py) * k + Fy)),
            Fin (pz + d * (vz + (tz - pz) * k + Fz)))"
proof -
  have lp: "i * 3 + 2 < length (positions st)" using p by (rule get3_Fin_in_range)
  have lv: "i * 3 + 2 < length (velocities st)" using v by (rule get3_Fin_in_range)
  have st: "slot_step s h (Fin hx) (Fin hy) st i
            = ((Fin (px + d * (vx + (tx - px) * k + Fx)),
                Fin (py + d * (vy + (ty - py) * k + Fy)),
                Fin (pz + d * (vz + (tz - pz) * k + Fz))),
               (Fin (d * (vx + (tx - px) * k + Fx)),
                Fin (d * (vy + (ty - py) * k + Fy)),
                Fin (d * (vz + (tz - pz) * k + Fz))))"
    unfolding slot_step_def p t v by (rule particle_step_Fin[OF fs iR d k R ne F])
  show ?thesis
    using animate_positions_slot[OF act lp, of h a] animate_velocities_slot[OF act lv, of h a]
    by (simp add: hX hY st)
qed


lemma animate_velocity_position_example:
  "0 < particleCount initial_settings
   \<and> handX \<lparr>hand_x = Fin 0.5, hand_y = Fin 0.5, gesture = Open, detected = True\<rparr> (Fin 2) = Fin 0
   \<and> handY \<lparr>hand_x = Fin 0.5, hand_y = Fin 0.5, gesture = Open, detected = True\<rparr> = Fin 0
   \<and> F_hand 2.5 25 True Open (0, 0, 0) (3, 4, 0) = (12 / 5, 16 / 5, 0)
   \<and> get3 (velocities (animate initial_settings
          \<lparr>hand_x = Fin 0.5, hand_y = Fin 0.5, gesture = Open, detected = True\<rparr> (Fin 2)
          \<lparr>positions = Fin 3 # Fin 4 # replicate (MAX_PARTICLES * 3 - 2) (Fin 0),
           velocities = replicate (MAX_PARTICLES * 3) (Fin 0),
           targets = Fin 3 # Fin 4 # replicate (MAX_PARTICLES * 3 - 2) (Fin 0)\<rparr>)) (0 * 3)
     = (Fin (288 / 125), Fin (384 / 125), Fin 0)
   \<and> get3 (positions (animate initial_settings
          \<lparr>hand_x = Fin 0.5, hand_y = Fin 0.5, gesture = Open, detected = True\<rparr> (Fin 2)
          \<lparr>positions = Fin 3 # Fin 4 # replicate (MAX_PARTICLES * 3 - 2) (Fin 0),
           velocities = replicate (MAX_PARTICLES * 3) (Fin 0),
           targets = Fin 3 # Fin 4 # replicate (MAX_PARTICLES * 3 - 2) (Fin 0)\<rparr>)) (0 * 3)
     = (Fin (3 + 288 / 125), Fin (4 + 384 / 125), Fin 0)"
proof -
  let ?h = "\<lparr>hand_x = Fin 0.5, hand_y = Fin 0.5, gesture = Open, detected = True\<rparr>"
  let ?st = "\<lparr>positions = Fin 3 # Fin 4 # replicate (MAX_PARTICLES * 3 - 2) (Fin 0),
           velocities = replicate (MAX_PARTICLES * 3) (Fin 0),
           targets = Fin 3 # Fin 4 # replicate (MAX_PARTICLES * 3 - 2) (Fin 0)\<rparr>"
  have act: "0 < particleCount initial_settings" by (simp add: initial_settings_def)
  have fs: "forceStrength initial_settings = Fin 2.5"
    and iR: "interactionRadius initial_settings = Fin 25"
    and d: "damping initial_settings = Fin 0.96"
    and k: "returnSpeed initial_settings = Fin 0.04"
    by (simp_all add: initial_settings_def)
  have hX: "handX ?h (Fin 2) = Fin 0"
    by (simp add: handX_def view_width_def view_height_def)
  have hY: "handY ?h = Fin 0"
    by (simp add: handY_def view_height_def)
  have p: "get3 (positions ?st) (0 * 3) = (Fin 3, Fin 4, Fin 0)"
    and t: "get3 (targets ?st) (0 * 3) = (Fin 3, Fin 4, Fin 0)"
    and v: "get3 (velocities ?st) (0 * 3) = (Fin 0, Fin 0, Fin 0)"
    by (simp_all add: get3_def f32_get_def MAX_PARTICLES_def)
  have s25: "sqrt 25 = 5" by (rule real_sqrt_unique) simp_all
  have F: "F_hand 2.5 25 (detected ?h) (gesture ?h) (0, 0, 0) (3, 4, 0) = (12 / 5, 16 / 5, 0)"
    by (simp add: F_hand_def dist3_def away_from_def scale3_def s25)
  have ne: "detected ?h \<Longrightarrow> gesture ?h \<noteq> NoneGesture \<Longrightarrow> (3, 4, 0) \<noteq> (0 :: real, 0 :: real, 0 :: real)"
    by simp
  note T = animate_velocity_position[OF act fs iR d k _ hX hY p t v ne F]
  show ?thesis using T act hX hY F by simp
qed

text \<open>
  C1: the code has no guard for the distance 0. With the initial settings, a hand
  detected at the centre of the view (the hand point is the origin) and a particle at the
  origin, the direction is \<open>0 / 0\<close>, and the frame stores \<^verbatim>\<open>NaN\<close> in every
  component of the particle's velocity and position, for an open hand and for a fist.
\<close>

theorem zero_distance_velocity_NaN:
  "get3 (velocities (animate initial_settings
      \<lparr>hand_x = Fin 0.5, hand_y = Fin 0.5, gesture = Open, detected = True\<rparr> (Fin 2)
      \<lparr>positions = replicate (MAX_PARTICLES * 3) (Fin 0),
       velocities = replicate (MAX_PARTICLES * 3) (Fin 0),
       targets = replicate (MAX_PARTICLES * 3) (Fin 0)\<rparr>)) 0 = (NaN, NaN, NaN)
   \<and> get3 (velocities (animate initial_settings
      \<lparr>hand_x = Fin 0.5, hand_y = Fin 0.5, gesture = Fist, detected = True\<rparr> (Fin 2)
      \<lparr>positions = replicate (MAX_PARTICLES * 3) (Fin 0),
       velocities = replicate (MAX_PARTICLES * 3) (Fin 0),
       targets = replicate (MAX_PARTICLES * 3) (Fin 0)\<rparr>)) 0 = (NaN, NaN, NaN)
   \<and> get3 (positions (animate initial_settings
      \<lparr>hand_x = Fin 0.5, hand_y = Fin 0.5, gesture = Open, detected = True\<rparr> (Fin 2)
      \<lparr>positions = replicate (MAX_PARTICLES * 3) (Fin 0),
       velocities = replicate (MAX_PARTICLES * 3) (Fin 0),
       targets = replicate (MAX_PARTICLES * 3) (Fin 0)\<rparr>)) 0 = (NaN, NaN, NaN)"
proof -
  let ?st = "\<lparr>positions = replicate (MAX_PARTICLES * 3) (Fin 0),
       velocities = replicate (MAX_PARTICLES * 3) (Fin 0),
       targets = replicate (MAX_PARTICLES * 3) (Fin 0)\<rparr>"
  let ?h = "\<lambda>g. \<lparr>hand_x = Fin 0.5, hand_y = Fin 0.5, gesture = g, detected = True\<rparr>"
  have act: "0 < particleCount initial_settings" by (simp add: initial_settings_def)
  have len: "0 * 3 + 2 < length (velocities ?st)" "0 * 3 + 2 < length (positions ?st)"
    by (simp_all add: MAX_PARTICLES_def)
  have hX: "handX (?h g) (Fin 2) = Fin 0" for g
    by (simp add: handX_def view_width_def view_height_def)
  have hY: "handY (?h g) = Fin 0" for g
    by (simp add: handY_def view_height_def)
  have step: "slot_step initial_settings (?h g) (Fin 0) (Fin 0) ?st 0
      = ((NaN, NaN, NaN), (NaN, NaN, NaN))" if "g = Open \<or> g = Fist" for g
    using that
    by (auto simp: slot_step_def particle_step_def hand_interaction_def Let_def handZ_def
        get3_def f32_get_def MAX_PARTICLES_def initial_settings_def)
  have v: "get3 (velocities (animate initial_settings (?h g) (Fin 2) ?st)) (0 * 3)
           = (NaN, NaN, NaN)" if "g = Open \<or> g = Fist" for g
    using animate_velocities_slot[OF act len(1), of "?h g" "Fin 2"]
    unfolding hX hY step[OF that] by simp
  have p: "get3 (positions (animate initial_settings (?h g) (Fin 2) ?st)) (0 * 3)
           = (NaN, NaN, NaN)" if "g = Open \<or> g = Fist" for g
    using animate_positions_slot[OF act len(2), of "?h g" "Fin 2"]
    unfolding hX hY step[OF that] by simp
  show ?thesis using v[of Open] v[of Fist] p[of Open] by simp
qed

text \<open>
  With a force strength of 0, a particle that does not sit on the hand point gets the
  result of the frame with no hand detected.
\<close>

lemma zero_strength_nonzero_distance:
  assumes fs: "forceStrength s = Fin 0" and iR: "interactionRadius s = Fin R"
    and d: "damping s = Fin d" and k: "returnSpeed s = Fin k" and R: "0 \<le> R"
    and ne: "(px, py, pz) \<noteq> (hx, hy, 0)"
  shows "particle_step s h (Fin hx) (Fin hy)
           (Fin px, Fin py, Fin pz) (Fin tx, Fin ty, Fin tz) (Fin vx, Fin vy, Fin vz)
         = particle_step s (h\<lparr>detected := False\<rparr>) (Fin hx) (Fin hy)
           (Fin px, Fin py, Fin pz) (Fin tx, Fin ty, Fin tz) (Fin vx, Fin vy, Fin vz)"
proof -
  have F: "F_hand 0 R b g (hx, hy, 0) (px, py, pz) = (0, 0, 0)" for b g
    by (simp add: F_hand_def scale3_def away_from_def)
  have A: "particle_step s h' (Fin hx) (Fin hy)
             (Fin px, Fin py, Fin pz) (Fin tx, Fin ty, Fin tz) (Fin vx, Fin vy, Fin vz)
           = ((Fin (px + d * (vx + (tx - px) * k + 0)),
               Fin (py + d * (vy + (ty - py) * k + 0)),
               Fin (pz + d * (vz + (tz - pz) * k + 0))),
              (Fin (d * (vx + (tx - px) * k + 0)),
               Fin (d * (vy + (ty - py) * k + 0)),
               Fin (d * (vz + (tz - pz) * k + 0))))" for h'
    by (rule particle_step_Fin[OF fs iR d k R]) (use ne F in simp_all)
  show ?thesis by (simp only: A)
qed

text \<open>
  C4: with a force strength of 0 the same frame still stores \<^verbatim>\<open>NaN\<close>
  (\<open>NaN * 0\<close> is \<^verbatim>\<open>NaN\<close>), where the frame with no hand detected leaves the
  velocity of the particle at 0.
\<close>

theorem zero_strength_zero_distance:
  "get3 (velocities (animate (initial_settings\<lparr>forceStrength := Fin 0\<rparr>)
      \<lparr>hand_x = Fin 0.5, hand_y = Fin 0.5, gesture = Open, detected = True\<rparr> (Fin 2)
      \<lparr>positions = replicate (MAX_PARTICLES * 3) (Fin 0),
       velocities = replicate (MAX_PARTICLES * 3) (Fin 0),
       targets = replicate (MAX_PARTICLES * 3) (Fin 0)\<rparr>)) 0 = (NaN, NaN, NaN)
   \<and> get3 (velocities (animate (initial_settings\<lparr>forceStrength := Fin 0\<rparr>)
      \<lparr>hand_x = Fin 0.5, hand_y = Fin 0.5, gesture = Open, detected = False\<rparr> (Fin 2)
      \<lparr>positions = replicate (MAX_PARTICLES * 3) (Fin 0),
       velocities = replicate (MAX_PARTICLES * 3) (Fin 0),
       targets = replicate (MAX_PARTICLES * 3) (Fin 0)\<rparr>)) 0 = (Fin 0, Fin 0, Fin 0)"
proof -
  let ?s = "initial_settings\<lparr>forceStrength := Fin 0\<rparr>"
  let ?st = "\<lparr>positions = replicate (MAX_PARTICLES * 3) (Fin 0),
       velocities = replicate (MAX_PARTICLES * 3) (Fin 0),
       targets = replicate (MAX_PARTICLES * 3) (Fin 0)\<rparr>"
  let ?h = "\<lambda>b. \<lparr>hand_x = Fin 0.5, hand_y = Fin 0.5, gesture = Open, detected = b\<rparr>"
  have act: "0 < particleCount ?s" by (simp add: initial_settings_def)
  have len: "0 * 3 + 2 < length (velocities ?st)"
    by (simp_all add: MAX_PARTICLES_def)
  have hX: "handX (?h b) (Fin 2) = Fin 0" for b
    by (simp add: handX_def view_width_def view_height_def)
  have hY: "handY (?h b) = Fin 0" for b
    by (simp add: handY_def view_height_def)
  have step: "snd (slot_step ?s (?h b) (Fin 0) (Fin 0) ?st 0)
      = (if b then (NaN, NaN, NaN) else (Fin 0, Fin 0, Fin 0))" for b
    by (auto simp: slot_step_def particle_step_def hand_interaction_def Let_def handZ_def
        get3_def f32_get_def MAX_PARTICLES_def initial_settings_def)
  have v: "get3 (velocities (animate ?s (?h b) (Fin 2) ?st)) (0 * 3)
           = (if b then (NaN, NaN, NaN) else (Fin 0, Fin 0, Fin 0))" for b
    using animate_velocities_slot[OF act len, of "?h b" "Fin 2"]
    unfolding hX hY step by simp
  show ?thesis using v[of True] v[of False] by simp
qed

text \<open>
  C3: the formula fails for the active particle that sits on the hand point, within the
  radius at distance 0. With the initial settings, a fist detected at the centre of the
  view, the particle at the origin at rest and its target at \<open>(1, 1, 1)\<close>, the frame
  stores \<^verbatim>\<open>NaN\<close> in the velocity and the position of the particle, where
  \<open>damping * (v + (target - position) * returnSpeed + F_hand)\<close> is a finite number for
  every hand force.
\<close>

theorem zero_distance_formula_fails:
  "get3 (velocities (animate initial_settings
      \<lparr>hand_x = Fin 0.5, hand_y = Fin 0.5, gesture = Fist, detected = True\<rparr> (Fin 2)
      \<lparr>positions = replicate (MAX_PARTICLES * 3) (Fin 0),
       velocities = replicate (MAX_PARTICLES * 3) (Fin 0),
       targets = replicate (MAX_PARTICLES * 3) (Fin 1)\<rparr>)) 0 = (NaN, NaN, NaN)
   \<and> get3 (positions (animate initial_settings
      \<lparr>hand_x = Fin 0.5, hand_y = Fin 0.5, gesture = Fist, detected = True\<rparr> (Fin 2)
      \<lparr>positions = replicate (MAX_PARTICLES * 3) (Fin 0),
       velocities = replicate (MAX_PARTICLES * 3) (Fin 0),
       targets = replicate (MAX_PARTICLES * 3) (Fin 1)\<rparr>)) 0 = (NaN, NaN, NaN)
   \<and> (\<forall>Fx Fy Fz.
        get3 (velocities (animate initial_settings
          \<lparr>hand_x = Fin 0.5, hand_y = Fin 0.5, gesture = Fist, detected = True\<rparr> (Fin 2)
          \<lparr>positions = replicate (MAX_PARTICLES * 3) (Fin 0),
           velocities = replicate (MAX_PARTICLES * 3) (Fin 0),
           targets = replicate (MAX_PARTICLES * 3) (Fin 1)\<rparr>)) 0
        \<noteq> (Fin (0.96 * (0 + (1 - 0) * 0.04 + Fx)),
            Fin (0.96 * (0 + (1 - 0) * 0.04 + Fy)),
            Fin (0.96 * (0 + (1 - 0) * 0.04 + Fz))))"
proof -
  let ?st = "\<lparr>positions = replicate (MAX_PARTICLES * 3) (Fin 0),
       velocities = replicate (MAX_PARTICLES * 3) (Fin 0),
       targets = replicate (MAX_PARTICLES * 3) (Fin 1)\<rparr>"
  let ?h = "\<lparr>hand_x = Fin 0.5, hand_y = Fin 0.5, gesture = Fist, detected = True\<rparr>"
  have act: "0 < particleCount initial_settings" by (simp add: initial_settings_def)
  have len: "0 * 3 + 2 < length (velocities ?st)" "0 * 3 + 2 < length (positions ?st)"
    by (simp_all add: MAX_PARTICLES_def)
  have hX: "handX ?h (Fin 2) = Fin 0"
    by (simp add: handX_def view_width_def view_height_def)
  have hY: "handY ?h = Fin 0"
    by (simp add: handY_def view_height_def)
  have step: "slot_step initial_settings ?h (Fin 0) (Fin 0) ?st 0
      = ((NaN, NaN, NaN), (NaN, NaN, NaN))"
    by (simp add: slot_step_def particle_step_def hand_interaction_def Let_def handZ_def
        get3_def f32_get_def MAX_PARTICLES_def initial_settings_def)
  have v: "get3 (velocities (animate initial_settings ?h (Fin 2) ?st)) (0 * 3) = (NaN, NaN, NaN)"
    using animate_velocities_slot[OF act len(1), of ?h "Fin 2"]
    unfolding hX hY step by simp
  have p: "get3 (positions (animate initial_settings ?h (Fin 2) ?st)) (0 * 3) = (NaN, NaN, NaN)"
    using animate_positions_slot[OF act len(2), of ?h "Fin 2"]
    unfolding hX hY step by simp
  show ?thesis using v p by simp
qed

section \<open>The generated buffers\<close>

lemma snd_shape_point: "snd (shape_point type i count rand n) = n + draws type"
  by (cases type) (simp_all add: getPointOnSphereSurface_def Let_def)

lemma length_shape_loop [simp]:
  "length (shape_loop type count rand i n ps) = length ps"
proof (induction "count - i" arbitrary: i n ps)
  case 0
  then show ?case by (simp add: shape_loop.simps[of type count rand i])
next
  case (Suc m)
  then have lt: "i < count" and m: "m = count - Suc i" by auto
  show ?case
    using lt Suc.hyps(1)[OF m]
    by (simp add: shape_loop.simps[of type count rand i] split: prod.splits)
qed

lemma shape_loop_nth:
  "j < length ps \<Longrightarrow>
   shape_loop type count rand i n ps ! j =
     (if i * 3 \<le> j \<and> j < count * 3
      then nth3 (fin3 (fst (shape_point type (j div 3) count rand (n + (j div 3 - i) * draws type))))
             (j mod 3)
      else ps ! j)"
proof (induction "count - i" arbitrary: i n ps)
  case 0
  then have "count \<le> i" by simp
  then show ?case by (auto simp: shape_loop.simps[of type count rand i])
next
  case (Suc m)
  then have lt: "i < count" and m: "m = count - Suc i" by auto
  obtain w n' where sp: "shape_point type i count rand n = (w, n')" by (cases "shape_point type i count rand n")
  have n': "n' = n + draws type" using snd_shape_point[of type i count rand n] sp by simp
  let ?ps1 = "set3 ps (i * 3) (fin3 w)"
  have unf: "shape_loop type count rand i n ps = shape_loop type count rand (Suc i) n' ?ps1"
    using lt sp by (simp add: shape_loop.simps[of type count rand i])
  have len: "j < length ?ps1" using Suc.prems by simp
  note IH = Suc.hyps(1)[OF m len, of n']
  show ?case
  proof (cases "Suc i * 3 \<le> j \<and> j < count * 3")
    case A: True
    then have "Suc i \<le> j div 3" by auto
    then obtain q where q: "j div 3 = Suc i + q" using le_Suc_ex by blast
    have "n' + (j div 3 - Suc i) * draws type = n + (j div 3 - i) * draws type"
      using n' by (simp add: q)
    then show ?thesis using A IH unf by simp
  next
    case B: False
    show ?thesis
    proof (cases "i * 3 \<le> j \<and> j < i * 3 + 3")
      case C: True
      then have d: "j div 3 = i" by auto
      have md: "j mod 3 = j - i * 3"
        using C d by (metis add.commute diff_add_inverse div_mult_mod_eq mult.commute)
      show ?thesis using B C IH unf lt Suc.prems d md sp
        by (simp add: nth_set3)
    next
      case D: False
      then show ?thesis using B IH unf lt Suc.prems
        by (auto simp add: nth_set3)
    qed
  qed
qed

lemma length_sentinel_loop [simp]: "length (sentinel_loop i ps) = length ps"
proof (induction "MAX_PARTICLES - i" arbitrary: i ps)
  case 0
  then show ?case by (simp add: sentinel_loop.simps[of i])
next
  case (Suc m)
  then have lt: "i < MAX_PARTICLES" and m: "m = MAX_PARTICLES - Suc i" by auto
  show ?case using lt Suc.hyps(1)[OF m] by (simp add: sentinel_loop.simps[of i])
qed

lemma sentinel_loop_nth:
  "j < length ps \<Longrightarrow>
   sentinel_loop i ps ! j =
     (if i * 3 \<le> j \<and> j < MAX_PARTICLES * 3 then Fin 9999 else ps ! j)"
proof (induction "MAX_PARTICLES - i" arbitrary: i ps)
  case 0
  then have "MAX_PARTICLES \<le> i" by simp
  then show ?case by (auto simp: sentinel_loop.simps[of i])
next
  case (Suc m)
  then have lt: "i < MAX_PARTICLES" and m: "m = MAX_PARTICLES - Suc i" by auto
  let ?ps1 = "ps[i * 3 := Fin 9999, i * 3 + 1 := Fin 9999, i * 3 + 2 := Fin 9999]"
  have unf: "sentinel_loop i ps = sentinel_loop (Suc i) ?ps1"
    using lt by (simp add: sentinel_loop.simps[of i])
  have len: "j < length ?ps1" using Suc.prems by simp
  note IH = Suc.hyps(1)[OF m len]
  have e: "?ps1 = set3 ps (i * 3) (Fin 9999, Fin 9999, Fin 9999)"
    by (simp add: set3_def)
  show ?case using IH unf lt Suc.prems unfolding e
    by (auto simp: nth_set3)
qed

lemma length_generateShapePositions [simp]:
  "length (generateShapePositions type count rand) = MAX_PARTICLES * 3"
  by (simp add: generateShapePositions_def)

lemma generateShapePositions_nth:
  "j < MAX_PARTICLES * 3 \<Longrightarrow>
   generateShapePositions type count rand ! j =
     (if j < count * 3
      then nth3 (fin3 (fst (shape_point type (j div 3) count rand (j div 3 * draws type)))) (j mod 3)
      else Fin 9999)"
  by (simp add: generateShapePositions_def sentinel_loop_nth shape_loop_nth)

lemma generateShapePositions_slot:
  assumes "k < MAX_PARTICLES"
  shows "get3 (generateShapePositions type count rand) (k * 3) =
     (if k < count then fin3 (fst (shape_point type k count rand (k * draws type))) else sentinel)"
proof (rule get3_nth3)
  show "k * 3 + 2 < length (generateShapePositions type count rand)"
    using assms by simp
  fix m :: nat assume m: "m < 3"
  then have "k * 3 + m < MAX_PARTICLES * 3" using assms by simp
  then show "generateShapePositions type count rand ! (k * 3 + m) =
     nth3 (if k < count then fin3 (fst (shape_point type k count rand (k * draws type))) else sentinel) m"
    using m by (auto simp: generateShapePositions_nth sentinel_def)
qed

lemma abs_mult_le:
  fixes a b :: real
  assumes "\<bar>a\<bar> \<le> A" "\<bar>b\<bar> \<le> B"
  shows "\<bar>a * b\<bar> \<le> A * B"
proof -
  have "\<bar>a * b\<bar> = \<bar>a\<bar> * \<bar>b\<bar>" by (simp add: abs_mult)
  also have "\<dots> \<le> A * B" using assms by (intro mult_mono) auto
  finally show ?thesis .
qed

lemma sphere_bounded:
  assumes "fst (getPointOnSphereSurface 25 rand n) = (x, y, z)"
  shows "\<bar>x\<bar> \<le> 25 \<and> \<bar>y\<bar> \<le> 25 \<and> \<bar>z\<bar> \<le> 25"
proof -
  have sc: "\<bar>25 * sin p * cos q\<bar> \<le> 25" for p q :: real
    using abs_mult_le[OF abs_mult_le[of 25 25 "sin p" 1] abs_cos_le_one[of q]] by simp
  have ss: "\<bar>25 * sin p * sin q\<bar> \<le> 25" for p q :: real
    using abs_mult_le[OF abs_mult_le[of 25 25 "sin p" 1] abs_sin_le_one[of q]] by simp
  have c: "\<bar>25 * cos p\<bar> \<le> 25" for p :: real
    using abs_mult_le[of 25 25 "cos p" 1] by simp
  show ?thesis using assms sc ss c
    by (auto simp: getPointOnSphereSurface_def Let_def)
qed

lemma cube_bounded:
  assumes "rand_ok rand" "fst (shape_point Cube i count rand n) = (x, y, z)"
  shows "\<bar>x\<bar> \<le> 18 \<and> \<bar>y\<bar> \<le> 18 \<and> \<bar>z\<bar> \<le> 18"
proof -
  have b: "\<bar>(r - 0.5) * 35\<bar> \<le> 18" if "0 \<le> r" "r < 1" for r :: real
    using that by (simp add: abs_if) 
  have r: "0 \<le> rand m" "rand m < 1" for m using assms(1) by (auto simp: rand_ok_def)
  show ?thesis using assms(2) b[OF r, of n] b[OF r, of "n + 1"] b[OF r, of "n + 2"]
    by (auto simp: Let_def)
qed

lemma heart_bounded:
  assumes "rand_ok rand" "fst (shape_point Heart i count rand n) = (x, y, z)"
  shows "\<bar>x\<bar> \<le> 20 \<and> \<bar>y\<bar> \<le> 31 \<and> \<bar>z\<bar> \<le> 10"
proof -
  have r: "0 \<le> rand m" "rand m < 1" for m using assms(1) by (auto simp: rand_ok_def)
  define vol where "vol = sqrt (rand (n + 1))"
  define t where "t = rand n * pi * 2"
  define g where "g = 13 * cos t - 5 * cos (2 * t) - 2 * cos (3 * t) - cos (4 * t)"
  define q where "q = rand (n + 2) - 0.5"
  have xyz: "x = 1.2 * 16 * sin t ^ 3 * vol" "y = 1.2 * g * vol + 5" "z = q * 10 * vol"
    using assms(2) unfolding vol_def t_def g_def q_def by (simp_all add: Let_def)
  have vol: "\<bar>vol\<bar> \<le> 1" using r[of "n + 1"] by (simp add: vol_def)
  have s3: "\<bar>sin t ^ 3\<bar> \<le> 1" by (simp add: power_abs power_le_one)
  have lin: "\<bar>13 * a - 5 * b - 2 * c - d\<bar> \<le> 21"
    if "\<bar>a\<bar> \<le> 1" "\<bar>b\<bar> \<le> 1" "\<bar>c\<bar> \<le> 1" "\<bar>d\<bar> \<le> 1" for a b c d :: real
    using that by (simp add: abs_le_iff)
  have g: "\<bar>g\<bar> \<le> 21" unfolding g_def by (rule lin) (rule abs_cos_le_one)+
  have q: "\<bar>q\<bar> \<le> 1" using r[of "n + 2"] unfolding q_def by (simp add: abs_if)
  have c1: "\<bar>1.2 * 16 :: real\<bar> \<le> 20" and c2: "\<bar>1.2 :: real\<bar> \<le> 1.2" and c3: "\<bar>10 :: real\<bar> \<le> 10"
    by simp_all
  have "\<bar>1.2 * 16 * sin t ^ 3 * vol\<bar> \<le> 20 * 1 * 1"
    by (rule abs_mult_le[OF abs_mult_le[OF c1 s3] vol])
  then have bx: "\<bar>x\<bar> \<le> 20" unfolding xyz by simp
  have gv: "\<bar>1.2 * g * vol\<bar> \<le> 1.2 * 21 * 1"
    by (rule abs_mult_le[OF abs_mult_le[OF c2 g] vol])
  have "\<bar>w + 5\<bar> \<le> 31" if "\<bar>w\<bar> \<le> 1.2 * 21 * 1" for w :: real
    using that by (auto simp: abs_if split: if_splits)
  from this[OF gv] have by': "\<bar>y\<bar> \<le> 31" unfolding xyz .
  have "\<bar>q * 10 * vol\<bar> \<le> 1 * 10 * 1"
    by (rule abs_mult_le[OF abs_mult_le[OF q c3] vol])
  then have bz': "\<bar>z\<bar> \<le> 10" unfolding xyz by simp
  show ?thesis using bx by' bz' by simp
qed

lemma shape_point_Spiral [simp]: "fst (shape_point Spiral i count rand n) = helix i count"
  by (simp add: helix_def Let_def)

lemma spiral_bounded:
  assumes "i < count" "fst (shape_point Spiral i count rand n) = (x, y, z)"
  shows "\<bar>x\<bar> \<le> 20 \<and> \<bar>y\<bar> \<le> 30 \<and> \<bar>z\<bar> \<le> 20"
proof -
  have c: "\<bar>20 * cos p\<bar> \<le> 20" for p :: real
    using abs_mult_le[of 20 20 "cos p" 1] by simp
  have s: "\<bar>20 * sin p\<bar> \<le> 20" for p :: real
    using abs_mult_le[of 20 20 "sin p" 1] by simp
  define u where "u = real i / real count"
  have "0 \<le> u" "u < 1" using assms(1) by (simp_all add: u_def)
  then have "\<bar>u * 60 - 30\<bar> \<le> 30" by (simp add: abs_le_iff)
  then have y: "\<bar>real i / real count * 60 - 30\<bar> \<le> 30" unfolding u_def .
  show ?thesis using assms(2) c s y by (auto simp: helix_def)
qed

lemma shape_point_bounded:
  assumes "rand_ok rand" "i < count" "fst (shape_point type i count rand n) = (x, y, z)"
  shows "\<bar>x\<bar> \<le> 31 \<and> \<bar>y\<bar> \<le> 31 \<and> \<bar>z\<bar> \<le> 31"
proof (cases type)
  case Sphere
  then show ?thesis using sphere_bounded[of rand n x y z] assms(3) by simp
next
  case Cube
  then show ?thesis using cube_bounded[OF assms(1), of i count n x y z] assms(3) by simp
next
  case Heart
  then show ?thesis using heart_bounded[OF assms(1), of i count n x y z] assms(3) by simp
next
  case Spiral
  then show ?thesis using spiral_bounded[OF assms(2), of rand n x y z] assms(3) by simp
qed

lemma shape_point_not_sentinel:
  assumes "rand_ok rand" "i < count"
  shows "fin3 (fst (shape_point type i count rand n)) \<noteq> sentinel"
proof -
  obtain x y z where w: "fst (shape_point type i count rand n) = (x, y, z)"
    by (cases "fst (shape_point type i count rand n)") auto
  have "\<bar>x\<bar> \<le> 31" using shape_point_bounded[OF assms w] by simp
  then have "x \<noteq> 9999" by auto
  then show ?thesis by (simp add: w fin3_def sentinel_def)
qed

text \<open>
  C7: for every shape and every requested count \<open>c\<close> up to \<open>MAX_PARTICLES\<close> (with draws
  of \<^verbatim>\<open>Math.random\<close> in \<open>[0, 1)\<close>) the generated buffer has \<open>MAX_PARTICLES * 3\<close>
  entries; each particle below \<open>c\<close> holds the point of the shape's algorithm and is not
  the sentinel; each particle from \<open>c\<close> on is the sentinel \<open>(9999, 9999, 9999)\<close>; so
  exactly \<open>c\<close> particles are not the sentinel and \<open>MAX_PARTICLES - c\<close> are.
\<close>

theorem generated_buffer_sentinels:
  assumes c: "c \<le> MAX_PARTICLES" and r: "rand_ok rand"
  shows "length (generateShapePositions type c rand) = MAX_PARTICLES * 3
       \<and> (\<forall>k<c. get3 (generateShapePositions type c rand) (k * 3)
                   = fin3 (fst (shape_point type k c rand (k * draws type)))
                 \<and> get3 (generateShapePositions type c rand) (k * 3) \<noteq> sentinel)
       \<and> (\<forall>k. c \<le> k \<and> k < MAX_PARTICLES \<longrightarrow>
              get3 (generateShapePositions type c rand) (k * 3) = sentinel)
       \<and> card {k. k < MAX_PARTICLES \<and> get3 (generateShapePositions type c rand) (k * 3) \<noteq> sentinel} = c
       \<and> card {k. k < MAX_PARTICLES \<and> get3 (generateShapePositions type c rand) (k * 3) = sentinel}
           = MAX_PARTICLES - c"
proof -
  let ?buf = "generateShapePositions type c rand"
  have low: "get3 ?buf (k * 3) = fin3 (fst (shape_point type k c rand (k * draws type)))
             \<and> get3 ?buf (k * 3) \<noteq> sentinel" if "k < c" for k
    using that c by (simp add: generateShapePositions_slot shape_point_not_sentinel[OF r])
  have high: "get3 ?buf (k * 3) = sentinel" if "c \<le> k" "k < MAX_PARTICLES" for k
    using that by (simp add: generateShapePositions_slot)
  have s1: "{k. k < MAX_PARTICLES \<and> get3 ?buf (k * 3) \<noteq> sentinel} = {..<c}"
  proof (rule set_eqI)
    fix k show "k \<in> {k. k < MAX_PARTICLES \<and> get3 ?buf (k * 3) \<noteq> sentinel} \<longleftrightarrow> k \<in> {..<c}"
      using low[of k] high[of k] c by (cases "k < c") auto
  qed
  have s2: "{k. k < MAX_PARTICLES \<and> get3 ?buf (k * 3) = sentinel} = {c..<MAX_PARTICLES}"
  proof (rule set_eqI)
    fix k show "k \<in> {k. k < MAX_PARTICLES \<and> get3 ?buf (k * 3) = sentinel} \<longleftrightarrow> k \<in> {c..<MAX_PARTICLES}"
      using low[of k] high[of k] c by (cases "k < c") auto
  qed
  have l: "\<forall>k<c. get3 ?buf (k * 3) = fin3 (fst (shape_point type k c rand (k * draws type)))
                 \<and> get3 ?buf (k * 3) \<noteq> sentinel"
    using low by blast
  have h: "\<forall>k. c \<le> k \<and> k < MAX_PARTICLES \<longrightarrow> get3 ?buf (k * 3) = sentinel"
    using high by blast
  have c1: "card {k. k < MAX_PARTICLES \<and> get3 ?buf (k * 3) \<noteq> sentinel} = c"
    unfolding s1 by simp
  have c2: "card {k. k < MAX_PARTICLES \<and> get3 ?buf (k * 3) = sentinel} = MAX_PARTICLES - c"
    unfolding s2 by simp
  show ?thesis using l h c1 c2 length_generateShapePositions by blast
qed

theorem generated_buffer_sentinels_witness:
  "(5000 :: nat) \<le> MAX_PARTICLES \<and> rand_ok (\<lambda>n. 1 / 2)
   \<and> length (generateShapePositions Cube 5000 (\<lambda>n. 1 / 2)) = 120000
   \<and> get3 (generateShapePositions Cube 5000 (\<lambda>n. 1 / 2)) (4999 * 3) = (Fin 0, Fin 0, Fin 0)
   \<and> get3 (generateShapePositions Cube 5000 (\<lambda>n. 1 / 2)) (5000 * 3) = (Fin 9999, Fin 9999, Fin 9999)
   \<and> card {k. k < MAX_PARTICLES
              \<and> get3 (generateShapePositions Cube 5000 (\<lambda>n. 1 / 2)) (k * 3) \<noteq> sentinel} = 5000
   \<and> card {k. k < MAX_PARTICLES
              \<and> get3 (generateShapePositions Cube 5000 (\<lambda>n. 1 / 2)) (k * 3) = sentinel} = 35000"
proof -
  have c: "(5000 :: nat) \<le> MAX_PARTICLES" by (simp add: MAX_PARTICLES_def)
  have r: "rand_ok (\<lambda>n. 1 / 2)" by (simp add: rand_ok_def)
  note T = generated_buffer_sentinels[OF c r, of Cube]
  have 1: "get3 (generateShapePositions Cube 5000 (\<lambda>n. 1 / 2)) (4999 * 3) = (Fin 0, Fin 0, Fin 0)"
    using T[THEN conjunct2, THEN conjunct1, rule_format, of 4999]
    by (simp add: fin3_def Let_def)
  have 2: "get3 (generateShapePositions Cube 5000 (\<lambda>n. 1 / 2)) (5000 * 3) = (Fin 9999, Fin 9999, Fin 9999)"
    using T[THEN conjunct2, THEN conjunct2, THEN conjunct1, rule_format, of 5000]
    by (simp add: sentinel_def MAX_PARTICLES_def)
  show ?thesis using T c r 1 2 by (simp add: MAX_PARTICLES_def)
qed

text \<open>
  C9: for the shape Spiral the generated point of every index \<open>i\<close> below the requested
  count is the point of the single helix, \<open>x = 20 * cos (i * 0.05)\<close>,
  \<open>y = (i / requestedCount) * 60 - 30\<close>, \<open>z = 20 * sin (i * 0.05)\<close>, whatever
  \<^verbatim>\<open>Math.random\<close> returns; and two calls with the same count give the same buffer.
\<close>

theorem spiral_is_helix:
  "(i < c \<and> c \<le> MAX_PARTICLES \<longrightarrow>
      get3 (generateShapePositions Spiral c rand) (i * 3) = fin3 (helix i c))
   \<and> generateShapePositions Spiral c rand = generateShapePositions Spiral c rand'"
proof
  show "i < c \<and> c \<le> MAX_PARTICLES \<longrightarrow>
      get3 (generateShapePositions Spiral c rand) (i * 3) = fin3 (helix i c)"
    by (simp add: generateShapePositions_slot del: shape_point.simps)
next
  show "generateShapePositions Spiral c rand = generateShapePositions Spiral c rand'"
    by (rule nth_equalityI) (simp_all add: generateShapePositions_nth)
qed

theorem spiral_is_helix_witness:
  "(0 :: nat) < MAX_PARTICLES \<and> MAX_PARTICLES \<le> MAX_PARTICLES
   \<and> get3 (generateShapePositions Spiral MAX_PARTICLES (\<lambda>n. 1 / 2)) (0 * 3) = (Fin 20, Fin (- 30), Fin 0)
   \<and> generateShapePositions Spiral MAX_PARTICLES (\<lambda>n. 1 / 2)
     = generateShapePositions Spiral MAX_PARTICLES (\<lambda>n. 0)"
proof -
  have i: "(0 :: nat) < MAX_PARTICLES" by (simp add: MAX_PARTICLES_def)
  note T = spiral_is_helix[of 0 MAX_PARTICLES "\<lambda>n. 1 / 2" "\<lambda>n. 0"]
  have 1: "get3 (generateShapePositions Spiral MAX_PARTICLES (\<lambda>n. 1 / 2)) (0 * 3)
           = (Fin 20, Fin (- 30), Fin 0)"
    using T[THEN conjunct1] i by (simp add: helix_def fin3_def)
  show ?thesis using 1 T[THEN conjunct2] i by blast
qed

section \<open>The gesture classifier\<close>





text \<open>
  With exact operations (the rounding \<open>Fin\<close>) and real coordinates, a fingertip is folded
  exactly when the inequality holds on the reals.
\<close>

lemma folded_exact:
  assumes "tip < length pts" and "9 < length pts"
  shows "folded Fin (map to_landmark pts) tip
         = (real_sqdist2 (pts ! tip) (pts ! 0) < 1.5 * real_sqdist2 (pts ! 0) (pts ! 9))"
proof -
  have 0: "0 < length pts" using assms(2) by (cases pts) simp_all
  show ?thesis
    unfolding folded_def nth_map[OF assms(1)] nth_map[OF assms(2)] nth_map[OF 0]
    by (simp add: sqdist2_def rmul_def radd_def rsub_def rounded_def to_landmark_def
        real_sqdist2_def power2_eq_square)
qed


section \<open>The first render and a change of shape\<close>

lemma jeq_Fin_iff: "jeq a (Fin b) = (a = Fin b)"
  by (cases a) simp_all

lemma typed_set_same_length:
  "length src = length dst \<Longrightarrow> typed_set dst src = Inr src"
  by (simp add: typed_set_def)

lemma shape_effect_None:
  "shape_effect shape rand \<lparr>geometry = Option.None, velocitiesRef = vs, targetPositionsRef = ts\<rparr>
   = Inr \<lparr>geometry = Option.None, velocitiesRef = vs,
          targetPositionsRef = generateShapePositions shape MAX_PARTICLES rand\<rparr>"
  by (simp add: shape_effect_def Let_def)

lemma shape_effect_Some:
  assumes "length ps = MAX_PARTICLES * 3"
  shows "shape_effect shape rand \<lparr>geometry = Some ps, velocitiesRef = vs, targetPositionsRef = ts\<rparr>
   = Inr \<lparr>geometry = Some (if ps ! 0 = Fin 0 \<and> ps ! 1 = Fin 0 \<and> ps ! 2 = Fin 0
                           then generateShapePositions shape MAX_PARTICLES rand else ps),
          velocitiesRef = vs,
          targetPositionsRef = generateShapePositions shape MAX_PARTICLES rand\<rparr>"
proof -
  have "2 < length ps" using assms by (simp add: MAX_PARTICLES_def)
  then have g: "f32_get ps i = ps ! i" if "i < 3" for i
    using that by (simp add: f32_get_def)
  have ts: "typed_set ps (generateShapePositions shape MAX_PARTICLES rand)
            = Inr (generateShapePositions shape MAX_PARTICLES rand)"
    using assms by (simp add: typed_set_same_length)
  show ?thesis
    by (simp add: shape_effect_def Let_def g jeq_Fin_iff ts)
qed

lemma mount_effect_eq:
  "mount_effect shape rand \<lparr>geometry = g, velocitiesRef = vs, targetPositionsRef = ts\<rparr>
   = Inr \<lparr>geometry = Some (generateShapePositions shape MAX_PARTICLES rand), velocitiesRef = vs,
          targetPositionsRef = generateShapePositions shape MAX_PARTICLES rand\<rparr>"
  by (simp add: mount_effect_def Let_def typed_set_same_length)

text \<open>
  C2, as the code has it: the first render leaves the positions equal to the targets of the
  mount effect's generation, with the velocity buffer at its initial zeros. A change of
  shape (with a geometry of \<open>MAX_PARTICLES\<close> particles) replaces the target buffer and
  never writes the velocity buffer; it overwrites the positions with the new targets
  exactly when the first particle is at \<open>(0, 0, 0)\<close>, and leaves them as they are
  otherwise.
\<close>

theorem shape_change_snaps_on_first_particle:
  "first_render shape rand1 rand2
     = Inr \<lparr>geometry = Some (generateShapePositions shape MAX_PARTICLES rand2),
            velocitiesRef = replicate (MAX_PARTICLES * 3) (Fin 0),
            targetPositionsRef = generateShapePositions shape MAX_PARTICLES rand2\<rparr>
   \<and> (length ps = MAX_PARTICLES * 3 \<longrightarrow>
        shape_effect shape rand \<lparr>geometry = Some ps, velocitiesRef = vs, targetPositionsRef = ts\<rparr>
        = Inr \<lparr>geometry = Some (if ps ! 0 = Fin 0 \<and> ps ! 1 = Fin 0 \<and> ps ! 2 = Fin 0
                                then generateShapePositions shape MAX_PARTICLES rand else ps),
               velocitiesRef = vs,
               targetPositionsRef = generateShapePositions shape MAX_PARTICLES rand\<rparr>)"
  by (simp add: first_render_def initial_canvas_def shape_effect_None mount_effect_eq
        shape_effect_Some)

theorem shape_change_snaps_on_first_particle_witness:
  "length (replicate (MAX_PARTICLES * 3) (Fin 1)) = MAX_PARTICLES * 3
   \<and> shape_effect Cube (\<lambda>n. 1 / 2)
        \<lparr>geometry = Some (replicate (MAX_PARTICLES * 3) (Fin 1)),
         velocitiesRef = replicate (MAX_PARTICLES * 3) (Fin 2),
         targetPositionsRef = replicate (MAX_PARTICLES * 3) (Fin 1)\<rparr>
      = Inr \<lparr>geometry = Some (replicate (MAX_PARTICLES * 3) (Fin 1)),
         velocitiesRef = replicate (MAX_PARTICLES * 3) (Fin 2),
         targetPositionsRef = generateShapePositions Cube MAX_PARTICLES (\<lambda>n. 1 / 2)\<rparr>"
proof -
  have l: "length (replicate (MAX_PARTICLES * 3) (Fin 1)) = MAX_PARTICLES * 3" by simp
  show ?thesis
    using shape_change_snaps_on_first_particle[THEN conjunct2, rule_format, OF l,
        of Cube "\<lambda>n. 1 / 2" "replicate (MAX_PARTICLES * 3) (Fin 2)"
           "replicate (MAX_PARTICLES * 3) (Fin 1)"]
    by (simp add: MAX_PARTICLES_def)
qed

text \<open>
  A position buffer that is not the initial one, with its first particle at the origin:
  the change of shape overwrites it with the new targets, and the velocities stay.
\<close>

theorem later_shape_change_snaps_counterexample:
  "Fin 0 # Fin 0 # Fin 0 # replicate (MAX_PARTICLES * 3 - 3) (Fin 1)
     \<noteq> replicate (MAX_PARTICLES * 3) (Fin 0)
   \<and> shape_effect Spiral (\<lambda>n. 1 / 2)
        \<lparr>geometry = Some (Fin 0 # Fin 0 # Fin 0 # replicate (MAX_PARTICLES * 3 - 3) (Fin 1)),
         velocitiesRef = replicate (MAX_PARTICLES * 3) (Fin 2),
         targetPositionsRef = replicate (MAX_PARTICLES * 3) (Fin 1)\<rparr>
      = Inr \<lparr>geometry = Some (generateShapePositions Spiral MAX_PARTICLES (\<lambda>n. 1 / 2)),
         velocitiesRef = replicate (MAX_PARTICLES * 3) (Fin 2),
         targetPositionsRef = generateShapePositions Spiral MAX_PARTICLES (\<lambda>n. 1 / 2)\<rparr>
   \<and> generateShapePositions Spiral MAX_PARTICLES (\<lambda>n. 1 / 2)
     \<noteq> Fin 0 # Fin 0 # Fin 0 # replicate (MAX_PARTICLES * 3 - 3) (Fin 1)"
proof -
  let ?ps = "Fin 0 # Fin 0 # Fin 0 # replicate (MAX_PARTICLES * 3 - 3) (Fin 1)"
  let ?new = "generateShapePositions Spiral MAX_PARTICLES (\<lambda>n. 1 / 2)"
  have l: "length ?ps = MAX_PARTICLES * 3" by (simp add: MAX_PARTICLES_def)
  have a: "?ps \<noteq> replicate (MAX_PARTICLES * 3) (Fin 0)"
  proof
    assume "?ps = replicate (MAX_PARTICLES * 3) (Fin 0)"
    then have "?ps ! 3 = replicate (MAX_PARTICLES * 3) (Fin 0) ! 3" by simp
    then show False by (simp add: MAX_PARTICLES_def)
  qed
  have "?new ! 0 = Fin 20"
    by (simp add: generateShapePositions_nth MAX_PARTICLES_def helix_def fin3_def
        del: shape_point.simps)
  then have c: "?new \<noteq> ?ps" by (metis jsnum.inject nth_Cons_0 zero_neq_numeral)
  show ?thesis using a c shape_effect_Some[OF l, of Spiral "\<lambda>n. 1 / 2"] by simp
qed

section \<open>Frames with no hand: the return force overshoots\<close>

lemma nth3_get3: "m < 3 \<Longrightarrow> nth3 (get3 xs i3) m = f32_get xs (i3 + m)"
proof -
  assume "m < 3"
  then have "m = 0 \<or> m = 1 \<or> m = 2" by auto
  then show ?thesis by (auto simp: get3_def)
qed

lemma f32_get_nth: "j < length xs \<Longrightarrow> f32_get xs j = xs ! j"
  by (simp add: f32_get_def)

lemma particle_step_no_hand:
  assumes "\<not> detected h"
  shows "nth3 (fst (particle_step s h hX hY p t v)) m
         = jadd (nth3 p m) (jmul (jadd (nth3 v m) (jmul (jsub (nth3 t m) (nth3 p m)) (returnSpeed s)))
                             (damping s))"
    and "nth3 (snd (particle_step s h hX hY p t v)) m
         = jmul (jadd (nth3 v m) (jmul (jsub (nth3 t m) (nth3 p m)) (returnSpeed s))) (damping s)"
proof -
  obtain px py pz tx ty tz vx vy vz
    where e: "p = (px, py, pz)" "t = (tx, ty, tz)" "v = (vx, vy, vz)"
    by (cases p; cases t; cases v) auto
  show "nth3 (fst (particle_step s h hX hY p t v)) m
         = jadd (nth3 p m) (jmul (jadd (nth3 v m) (jmul (jsub (nth3 t m) (nth3 p m)) (returnSpeed s)))
                             (damping s))"
    using assms by (simp add: e particle_step_def hand_interaction_def Let_def)
  show "nth3 (snd (particle_step s h hX hY p t v)) m
         = jmul (jadd (nth3 v m) (jmul (jsub (nth3 t m) (nth3 p m)) (returnSpeed s))) (damping s)"
    using assms by (simp add: e particle_step_def hand_interaction_def Let_def)
qed

lemma div3_mod3: "j div 3 * 3 + j mod 3 = (j :: nat)"
  by simp

lemma animate_no_hand_coord:
  assumes nh: "\<not> detected h" and j: "j < particleCount s * 3"
    and lp: "j < length (positions st)" and lv: "j < length (velocities st)"
  shows "f32_get (positions (animate s h a st)) j
         = jadd (f32_get (positions st) j)
             (jmul (jadd (f32_get (velocities st) j)
                      (jmul (jsub (f32_get (targets st) j) (f32_get (positions st) j)) (returnSpeed s)))
                (damping s))"
    and "f32_get (velocities (animate s h a st)) j
         = jmul (jadd (f32_get (velocities st) j)
                   (jmul (jsub (f32_get (targets st) j) (f32_get (positions st) j)) (returnSpeed s)))
             (damping s)"
proof -
  have m: "j mod 3 < 3" by simp
  have g: "nth3 (get3 xs (j div 3 * 3)) (j mod 3) = f32_get xs j" for xs
    using nth3_get3[OF m, of xs "j div 3 * 3"] by (simp only: div3_mod3)
  show "f32_get (positions (animate s h a st)) j
         = jadd (f32_get (positions st) j)
             (jmul (jadd (f32_get (velocities st) j)
                      (jmul (jsub (f32_get (targets st) j) (f32_get (positions st) j)) (returnSpeed s)))
                (damping s))"
  proof -
    have "f32_get (positions (animate s h a st)) j = positions (animate s h a st) ! j"
      using lp by (simp add: f32_get_nth)
    also have "\<dots> = nth3 (fst (slot_step s h (handX h a) (handY h) st (j div 3))) (j mod 3)"
      using lp j by (simp add: animate_def positions_animate_loop_nth)
    finally show ?thesis
      by (simp only: slot_step_def particle_step_no_hand[OF nh] g)
  qed
  show "f32_get (velocities (animate s h a st)) j
         = jmul (jadd (f32_get (velocities st) j)
                   (jmul (jsub (f32_get (targets st) j) (f32_get (positions st) j)) (returnSpeed s)))
             (damping s)"
  proof -
    have "f32_get (velocities (animate s h a st)) j = velocities (animate s h a st) ! j"
      using lv by (simp add: f32_get_nth)
    also have "\<dots> = nth3 (snd (slot_step s h (handX h a) (handY h) st (j div 3))) (j mod 3)"
      using lv j by (simp add: animate_def velocities_animate_loop_nth)
    finally show ?thesis
      by (simp only: slot_step_def particle_step_no_hand[OF nh] g)
  qed
qed

lemma f32_get_Fin_in_range: "f32_get xs j = Fin a \<Longrightarrow> j < length xs"
  by (auto simp: f32_get_def split: if_splits)

lemma animate_no_hand_Fin:
  assumes nh: "\<not> detected h" and d: "damping s = Fin d" and k: "returnSpeed s = Fin k"
    and j: "j < particleCount s * 3"
    and p: "f32_get (positions st) j = Fin p" and v: "f32_get (velocities st) j = Fin v"
    and t: "f32_get (targets st) j = Fin t"
  shows "f32_get (positions (animate s h a st)) j = Fin (fst (coord_step d k t (p, v)))"
    and "f32_get (velocities (animate s h a st)) j = Fin (snd (coord_step d k t (p, v)))"
  using animate_no_hand_coord[OF nh j f32_get_Fin_in_range[OF p] f32_get_Fin_in_range[OF v], of a]
  by (simp_all add: d k p v t coord_step_def)

lemma steps_no_hand_Fin:
  assumes nh: "\<not> detected h" and d: "damping s = Fin d" and k: "returnSpeed s = Fin k"
    and j: "j < particleCount s * 3"
    and p: "f32_get (positions st) j = Fin p" and v: "f32_get (velocities st) j = Fin v"
    and t: "f32_get (targets st) j = Fin t"
  shows "f32_get (positions ((animate s h a ^^ n) st)) j = Fin (fst ((coord_step d k t ^^ n) (p, v)))
       \<and> f32_get (velocities ((animate s h a ^^ n) st)) j = Fin (snd ((coord_step d k t ^^ n) (p, v)))
       \<and> f32_get (targets ((animate s h a ^^ n) st)) j = Fin t"
proof (induction n)
  case 0
  then show ?case by (simp add: p v t)
next
  case (Suc n)
  let ?st = "(animate s h a ^^ n) st"
  obtain p' v' where pv: "(coord_step d k t ^^ n) (p, v) = (p', v')"
    by (cases "(coord_step d k t ^^ n) (p, v)")
  have 1: "f32_get (positions ?st) j = Fin p'" and 2: "f32_get (velocities ?st) j = Fin v'"
    and 3: "f32_get (targets ?st) j = Fin t"
    using Suc.IH by (simp_all add: pv)
  show ?case
    using animate_no_hand_Fin[OF nh d k j 1 2 3, of a] 3
    by (simp add: pv)
qed

lemma foldr_jadd_Fin:
  assumes "\<forall>j \<in> set js. f j = Fin (g j)"
  shows "foldr (\<lambda>j acc. jadd (f j) acc) js (Fin b) = Fin (sum_list (map g js) + b)"
  using assms by (induction js) simp_all

lemma sq_dist_sum_Fin:
  assumes "\<forall>j < c * 3. f32_get (positions st) j = Fin (P j) \<and> f32_get (targets st) j = Fin (T j)"
  shows "sq_dist_sum c st = Fin (\<Sum>j<c * 3. (P j - T j)\<^sup>2)"
proof -
  have "\<forall>j \<in> set [0..<c * 3].
          jmul (jsub (f32_get (positions st) j) (f32_get (targets st) j))
               (jsub (f32_get (positions st) j) (f32_get (targets st) j)) = Fin ((P j - T j)\<^sup>2)"
    using assms by (simp add: power2_eq_square)
  from foldr_jadd_Fin[OF this, of 0]
  have "sq_dist_sum c st = Fin (sum_list (map (\<lambda>j. (P j - T j)\<^sup>2) [0..<c * 3]))"
    by (simp add: sq_dist_sum_def)
  also have "sum_list (map (\<lambda>j. (P j - T j)\<^sup>2) [0..<c * 3]) = (\<Sum>j<c * 3. (P j - T j)\<^sup>2)"
    by (simp add: interv_sum_list_conv_sum_set_nat atLeast0LessThan)
  finally show ?thesis .
qed

lemma sq_dist_sum_steps:
  assumes nh: "\<not> detected h" and d: "damping s = Fin d" and k: "returnSpeed s = Fin k"
    and st: "\<forall>j < particleCount s * 3.
               f32_get (positions st) j = Fin (P j) \<and> f32_get (targets st) j = Fin (T j)
               \<and> f32_get (velocities st) j = Fin (V j)"
  shows "sq_dist_sum (particleCount s) ((animate s h a ^^ n) st)
         = Fin (\<Sum>j<particleCount s * 3. (fst ((coord_step d k (T j) ^^ n) (P j, V j)) - T j)\<^sup>2)"
proof (rule sq_dist_sum_Fin, intro allI impI)
  fix j assume j: "j < particleCount s * 3"
  show "f32_get (positions ((animate s h a ^^ n) st)) j = Fin (fst ((coord_step d k (T j) ^^ n) (P j, V j)))
        \<and> f32_get (targets ((animate s h a ^^ n) st)) j = Fin (T j)"
    using steps_no_hand_Fin[OF nh d k j, where st = st and p = "P j" and v = "V j" and t = "T j"
        and a = a and n = n] st j by simp
qed

text \<open>
  With the initial settings of the application (damping 0.96, return speed 0.04) the
  spring is underdamped: from every active coordinate at distance 1 of its target, at
  rest, the particles pass their targets during frame 8, and frame 9 makes the sum of the
  squared distances larger (from about \<open>0.37\<close> to about \<open>1642\<close> for the 60000 active
  coordinates, on exact arithmetic).
\<close>

lemma initial_settings_overshoot:
  "\<not> detected initial_hand
   \<and> damping initial_settings = Fin 0.96 \<and> returnSpeed initial_settings = Fin 0.04
   \<and> \<not> jlt (sq_dist_sum (particleCount initial_settings)
            ((animate initial_settings initial_hand (Fin 2) ^^ Suc 8)
               \<lparr>positions = replicate (MAX_PARTICLES * 3) (Fin 1),
                velocities = replicate (MAX_PARTICLES * 3) (Fin 0),
                targets = replicate (MAX_PARTICLES * 3) (Fin 0)\<rparr>))
           (sq_dist_sum (particleCount initial_settings)
            ((animate initial_settings initial_hand (Fin 2) ^^ 8)
               \<lparr>positions = replicate (MAX_PARTICLES * 3) (Fin 1),
                velocities = replicate (MAX_PARTICLES * 3) (Fin 0),
                targets = replicate (MAX_PARTICLES * 3) (Fin 0)\<rparr>))"
proof -
  let ?st = "\<lparr>positions = replicate (MAX_PARTICLES * 3) (Fin 1),
                velocities = replicate (MAX_PARTICLES * 3) (Fin 0),
                targets = replicate (MAX_PARTICLES * 3) (Fin 0)\<rparr>"
  have nh: "\<not> detected initial_hand" by (simp add: initial_hand_def)
  have d: "damping initial_settings = Fin (24 / 25)"
    and k: "returnSpeed initial_settings = Fin (1 / 25)"
    and c: "particleCount initial_settings * 3 = 60000"
    by (simp_all add: initial_settings_def)
  have st: "\<forall>j < particleCount initial_settings * 3.
               f32_get (positions ?st) j = Fin 1 \<and> f32_get (targets ?st) j = Fin 0
               \<and> f32_get (velocities ?st) j = Fin 0"
    unfolding c by (simp add: f32_get_def MAX_PARTICLES_def)
  have sums: "sq_dist_sum (particleCount initial_settings)
                ((animate initial_settings initial_hand (Fin 2) ^^ n) ?st)
              = Fin (60000 * (fst ((coord_step (24 / 25) (1 / 25) 0 ^^ n) (1, 0)))\<^sup>2)" for n
    using sq_dist_sum_steps[OF nh d k st, where a = "Fin 2" and n = n] by (simp add: c)
  have e8: "(coord_step (24 / 25) (1 / 25) 0 ^^ 8) (1, 0)
            = (- 57489534745518335999 / 23283064365386962890625,
               - 3955013504382191961624 / 23283064365386962890625)"
    by (simp add: eval_nat_numeral coord_step_def)
  have e9: "(coord_step (24 / 25) (1 / 25) 0 ^^ Suc 8) (1, 0)
            = (- 2407559313011371696909799 / 14551915228366851806640625,
               - 2371628353795422736910424 / 14551915228366851806640625)"
    unfolding funpow.simps o_apply e8 by (simp add: coord_step_def)
  have "\<not> jlt (Fin (60000 * (fst ((coord_step (24 / 25) (1 / 25) 0 ^^ Suc 8) (1, 0)))\<^sup>2))
              (Fin (60000 * (fst ((coord_step (24 / 25) (1 / 25) 0 ^^ 8) (1, 0)))\<^sup>2))"
    unfolding e8 e9 by (simp add: power2_eq_square)
  then show ?thesis
    unfolding sums using nh by (simp add: initial_settings_def)
qed

end
